theory Spec2Isabelle
  imports Main
begin

section \<open>Strings\<close>

text \<open>
  A JavaScript string is modelled as a \<^typ>\<open>string\<close>. Every character the program
  inspects (the nine characters of the sanitizing pattern, tab, newline and the letters of
  \<^verbatim>\<open>origin\<close> and \<^verbatim>\<open>refs/heads/\<close>) is ASCII, so reading a name unit by unit
  agrees with what the program does on it.
\<close>

definition newline :: char where
  "newline = CHR 0x0A"

definition tab :: char where
  "tab = CHR 0x09"

text \<open>
  \<^verbatim>\<open>s.split(sep)\<close> for a one-character separator: the pieces between the separators,
  in order, an empty piece included (\<^verbatim>\<open>''.split('\n')\<close> is \<^verbatim>\<open>['']\<close> and
  \<^verbatim>\<open>'a\n'.split('\n')\<close> is \<^verbatim>\<open>['a', '']\<close>).
\<close>

fun str_split :: "char \<Rightarrow> string \<Rightarrow> string list" where
  "str_split sep [] = [[]]"
| "str_split sep (c # cs) =
     (if c = sep then [] # str_split sep cs
      else (let pieces = str_split sep cs in (c # hd pieces) # tl pieces))"

text \<open>\<^verbatim>\<open>xs[i]\<close>: the element, or \<^verbatim>\<open>undefined\<close> (here \<^const>\<open>None\<close>) out of range.\<close>

definition at_index :: "'a list \<Rightarrow> nat \<Rightarrow> 'a option" where
  "at_index xs i = (if i < length xs then Some (xs ! i) else None)"

text \<open>\<^verbatim>\<open>s.startsWith(p)\<close>.\<close>

definition startsWith :: "string \<Rightarrow> string \<Rightarrow> bool" where
  "startsWith s p \<longleftrightarrow> take (length p) s = p"

text \<open>\<^verbatim>\<open>s.includes(p)\<close>: \<^verbatim>\<open>p\<close> occurs in \<^verbatim>\<open>s\<close> at some position.\<close>

fun str_includes :: "string \<Rightarrow> string \<Rightarrow> bool" where
  "str_includes [] p \<longleftrightarrow> p = []"
| "str_includes (c # cs) p \<longleftrightarrow> startsWith (c # cs) p \<or> str_includes cs p"

text \<open>
  \<^verbatim>\<open>s.replace(p, r)\<close> with a string pattern: the first occurrence of \<^verbatim>\<open>p\<close> is replaced,
  and a string without one is returned as it is.
\<close>

fun str_replace :: "string \<Rightarrow> string \<Rightarrow> string \<Rightarrow> string" where
  "str_replace [] p r = (if p = [] then r else [])"
| "str_replace (c # cs) p r =
     (if startsWith (c # cs) p then r @ drop (length p) (c # cs)
      else c # str_replace cs p r)"

section \<open>sanitizeFolderName\<close>

text \<open>
  The character class of the pattern \<^verbatim>\<open>/[<>:"/\\|?*]/g\<close>: less-than, greater-than, colon,
  double quote, slash, backslash, bar, question mark and star.
\<close>

definition invalid_chars :: "char list" where
  "invalid_chars =
     [CHR ''<'', CHR ''>'', CHR '':'', CHR 0x22, CHR ''/'', CHR 0x5C, CHR ''|'', CHR ''?'',
      CHR ''*'']"

text \<open>
  \<^verbatim>\<open>name.replace(/[<>:"/\\|?*]/g, '_')\<close>: with the \<^verbatim>\<open>g\<close> flag every character of the
  class is replaced by an underscore, and every other character is kept.
\<close>

definition sanitizeFolderName :: "string \<Rightarrow> string" where
  "sanitizeFolderName name =
     map (\<lambda>c. if c \<in> set invalid_chars then CHR ''_'' else c) name"

section \<open>The branch names of a ref listing\<close>

definition refs_heads :: string where
  "refs_heads = ''refs/heads/''"

text \<open>
  Lines 108 to 112 of \<^verbatim>\<open>cloneRepository\<close>:
  \<^verbatim>\<open>remoteBranches.split('\n').map(line => line.split('\t')[1])
      .filter(branch => branch && branch.startsWith('refs/heads/'))
      .map(branch => branch.replace('refs/heads/', ''))\<close>.
  The second field of a line without a tab is \<^verbatim>\<open>undefined\<close>; the filter drops it, as it
  drops an empty field, both being falsy, so that every field the last \<^verbatim>\<open>map\<close> reads is
  a string.
\<close>

definition is_head_ref :: "string option \<Rightarrow> bool" where
  "is_head_ref branch =
     (case branch of None \<Rightarrow> False | Some b \<Rightarrow> b \<noteq> [] \<and> startsWith b refs_heads)"

definition parseBranchNames :: "string \<Rightarrow> string list" where
  "parseBranchNames remoteBranches =
     map (\<lambda>branch. str_replace (the branch) refs_heads [])
       (filter is_head_ref
         (map (\<lambda>line. at_index (str_split tab line) 1) (str_split newline remoteBranches)))"

section \<open>The collaborators: file system, version control, logger\<close>

type_synonym path = string

text \<open>What a failing call throws: an error object, here its message.\<close>

datatype exn = Exn string

text \<open>
  The program reaches the outside through \<^verbatim>\<open>path.join\<close>, \<^verbatim>\<open>fs.existsSync\<close>,
  \<^verbatim>\<open>fs.mkdirSync\<close> and the calls of the shared \<^verbatim>\<open>simple-git\<close> handle, each made as
  \<^verbatim>\<open>git.cwd(folder)\<close> followed by one operation. None of them is code of the repository,
  so they are parameters of the model: an environment over a type \<^typ>\<open>'w\<close> of worlds (the
  disk and the remote). A call that can throw returns \<^const>\<open>Inl\<close> of what it throws, and
  the world it leaves behind in either case. \<^verbatim>\<open>fs.existsSync\<close> only reads and never throws.
\<close>

record 'w env =
  path_join :: "path \<Rightarrow> string \<Rightarrow> path"
  exists_at :: "path \<Rightarrow> 'w \<Rightarrow> bool"
  mkdir_at :: "path \<Rightarrow> 'w \<Rightarrow> (exn + unit) \<times> 'w"
  init_at :: "path \<Rightarrow> 'w \<Rightarrow> (exn + unit) \<times> 'w"
  raw_at :: "path \<Rightarrow> string list \<Rightarrow> 'w \<Rightarrow> (exn + string) \<times> 'w"
  fetch_at :: "path \<Rightarrow> 'w \<Rightarrow> (exn + unit) \<times> 'w"
  checkout_at :: "path \<Rightarrow> string list \<Rightarrow> 'w \<Rightarrow> (exn + unit) \<times> 'w"

text \<open>
  The log statements of the source, one constructor each, with the values the statement
  prints; \<open>message_text\<close> below gives the text.
\<close>

datatype message =
    SubfolderExists path
  | CreatedSubfolder path
  | InitializingSubfolder path
  | RemoteOriginExists
  | AddingRemoteOrigin
  | CheckingOut string path
  | CheckedOut string path
  | ErrorCloningBranch string exn
  | FolderDoesNotExist path
  | InitializingFolder path
  | FetchingBranchInformation
  | CouldNotFetchBranchInformation
  | NoRemoteBranchesFound
  | RemoteBranches "string list"
  | ErrorCloningRepository exn

fun message_text :: "message \<Rightarrow> string" where
  "message_text (SubfolderExists p) =
     ''The subfolder '' @ p @ '' already exists. Skipping branch cloning.''"
| "message_text (CreatedSubfolder p) = ''Created subfolder '' @ p"
| "message_text (InitializingSubfolder p) = ''Initializing git repository in '' @ p"
| "message_text RemoteOriginExists = ''Remote 'origin' exists, updating remote URL.''"
| "message_text AddingRemoteOrigin = ''Adding new remote 'origin'.''"
| "message_text (CheckingOut b p) = ''Checking out branch '' @ b @ '' into subfolder '' @ p"
| "message_text (CheckedOut b p) = ''Branch '' @ b @ '' has been checked out into '' @ p"
| "message_text (ErrorCloningBranch b e) = ''Error cloning branch '' @ b @ '':''"
| "message_text (FolderDoesNotExist p) =
     ''The folder '' @ p @ '' does not exist. Creating it...''"
| "message_text (InitializingFolder p) =
     ''Initializing git repository in folder '' @ p @ ''...''"
| "message_text FetchingBranchInformation = ''Fetching remote branch information...''"
| "message_text CouldNotFetchBranchInformation =
     ''Could not fetch branch information from the remote repository.''"
| "message_text NoRemoteBranchesFound = ''No remote branches found.''"
| "message_text (RemoteBranches names) = ''Remote branches:''"
| "message_text (ErrorCloningRepository e) = ''Error cloning repository:''"

datatype level = LInfo | LWarn | LError

text \<open>Every call the program makes on a collaborator, in the order it makes them.\<close>

datatype event =
    ExistsSync path
  | MkdirSync path
  | GitInit path
  | GitRaw path "string list"
  | GitFetch path
  | GitCheckout path "string list"
  | Log level message

record 'w state =
  world :: 'w
  trace :: "event list"

section \<open>Sequencing, throwing and catching\<close>

text \<open>
  A statement takes the state to a result and a state; \<^const>\<open>Inl\<close> is a thrown error.
  Each \<^verbatim>\<open>await\<close> of the source waits for the call it awaits, so the calls are in
  sequence.
\<close>

type_synonym ('w, 'a) action = "'w state \<Rightarrow> (exn + 'a) \<times> 'w state"

definition ret :: "'a \<Rightarrow> ('w, 'a) action" where
  "ret x s = (Inr x, s)"

definition andThen :: "('w, 'a) action \<Rightarrow> ('a \<Rightarrow> ('w, 'b) action) \<Rightarrow> ('w, 'b) action" where
  "andThen m k s = (case m s of (Inl e, s') \<Rightarrow> (Inl e, s') | (Inr x, s') \<Rightarrow> k x s')"

text \<open>\<^verbatim>\<open>try { m } catch (error) { h(error) }\<close>.\<close>

definition tryCatch :: "('w, 'a) action \<Rightarrow> (exn \<Rightarrow> ('w, 'a) action) \<Rightarrow> ('w, 'a) action" where
  "tryCatch m h s = (case m s of (Inl e, s') \<Rightarrow> h e s' | (Inr x, s') \<Rightarrow> (Inr x, s'))"

definition emit :: "event \<Rightarrow> 'w state \<Rightarrow> 'w state" where
  "emit ev s = s\<lparr>trace := trace s @ [ev]\<rparr>"

text \<open>A call on a collaborator: its event is recorded and the world is the one it leaves.\<close>

definition perform :: "event \<Rightarrow> ('w \<Rightarrow> (exn + 'a) \<times> 'w) \<Rightarrow> ('w, 'a) action" where
  "perform ev f s = (case f (world s) of (r, w) \<Rightarrow> (r, emit ev (s\<lparr>world := w\<rparr>)))"

definition existsSync :: "'w env \<Rightarrow> path \<Rightarrow> ('w, bool) action" where
  "existsSync env p = perform (ExistsSync p) (\<lambda>w. (Inr (exists_at env p w), w))"

definition mkdirSync :: "'w env \<Rightarrow> path \<Rightarrow> ('w, unit) action" where
  "mkdirSync env p = perform (MkdirSync p) (mkdir_at env p)"

definition git_init :: "'w env \<Rightarrow> path \<Rightarrow> ('w, unit) action" where
  "git_init env p = perform (GitInit p) (init_at env p)"

definition git_raw :: "'w env \<Rightarrow> path \<Rightarrow> string list \<Rightarrow> ('w, string) action" where
  "git_raw env p args = perform (GitRaw p args) (raw_at env p args)"

definition git_fetch :: "'w env \<Rightarrow> path \<Rightarrow> ('w, unit) action" where
  "git_fetch env p = perform (GitFetch p) (fetch_at env p)"

definition git_checkout :: "'w env \<Rightarrow> path \<Rightarrow> string list \<Rightarrow> ('w, unit) action" where
  "git_checkout env p args = perform (GitCheckout p args) (checkout_at env p args)"

text \<open>The logger takes the message and returns; it does not throw.\<close>

definition logger_info :: "message \<Rightarrow> ('w, unit) action" where
  "logger_info m s = (Inr (), emit (Log LInfo m) s)"

definition logger_warn :: "message \<Rightarrow> ('w, unit) action" where
  "logger_warn m s = (Inr (), emit (Log LWarn m) s)"

definition logger_error :: "message \<Rightarrow> ('w, unit) action" where
  "logger_error m s = (Inr (), emit (Log LError m) s)"

section \<open>cloneBranchToFolder\<close>

text \<open>
  Lines 48 to 57, and again lines 88 to 97 with \<^verbatim>\<open>repoFolderPath\<close> for
  \<^verbatim>\<open>branchFolderPath\<close>: the remotes are listed, and \<^verbatim>\<open>origin\<close> is repointed when the
  listing includes the text \<^verbatim>\<open>origin\<close>, added otherwise.
\<close>

definition configureOrigin :: "'w env \<Rightarrow> path \<Rightarrow> string \<Rightarrow> ('w, unit) action" where
  "configureOrigin env folderPath repoUrl =
     andThen (git_raw env folderPath [''remote'', ''show'']) (\<lambda>remotes.
       if str_includes remotes ''origin'' then
         andThen (logger_info RemoteOriginExists) (\<lambda>_.
         andThen (git_raw env folderPath [''remote'', ''set-url'', ''origin'', repoUrl]) (\<lambda>_.
         ret ()))
       else
         andThen (logger_info AddingRemoteOrigin) (\<lambda>_.
         andThen (git_raw env folderPath [''remote'', ''add'', ''origin'', repoUrl]) (\<lambda>_.
         ret ())))"

text \<open>
  Lines 40 to 66, what \<^verbatim>\<open>cloneBranchToFolder\<close> does when the folder is not there: the
  folder is created, initialised, its \<^verbatim>\<open>origin\<close> configured, the remote fetched and the
  branch checked out.
\<close>

definition checkoutIntoNewFolder ::
  "'w env \<Rightarrow> string \<Rightarrow> string \<Rightarrow> path \<Rightarrow> ('w, unit) action" where
  "checkoutIntoNewFolder env repoUrl branchName branchFolderPath =
     andThen (mkdirSync env branchFolderPath) (\<lambda>_.
     andThen (logger_info (CreatedSubfolder branchFolderPath)) (\<lambda>_.
     andThen (logger_info (InitializingSubfolder branchFolderPath)) (\<lambda>_.
     andThen (git_init env branchFolderPath) (\<lambda>_.
     andThen (configureOrigin env branchFolderPath repoUrl) (\<lambda>_.
     andThen (git_fetch env branchFolderPath) (\<lambda>_.
     andThen (logger_info (CheckingOut branchName branchFolderPath)) (\<lambda>_.
     andThen (git_checkout env branchFolderPath [branchName]) (\<lambda>_.
     logger_info (CheckedOut branchName branchFolderPath)))))))))"

text \<open>
  The body of the \<^verbatim>\<open>try\<close> block, lines 30 to 66; when the folder is there, the
  \<^verbatim>\<open>return\<close> of line 36 ends it after the log statement.
\<close>

definition cloneBranchToFolder_try ::
  "'w env \<Rightarrow> string \<Rightarrow> string \<Rightarrow> path \<Rightarrow> ('w, unit) action" where
  "cloneBranchToFolder_try env repoUrl branchName parentFolderPath =
     (let sanitizedBranchName = sanitizeFolderName branchName;
          branchFolderPath = path_join env parentFolderPath sanitizedBranchName
      in andThen (existsSync env branchFolderPath) (\<lambda>present.
           if present then logger_info (SubfolderExists branchFolderPath)
           else checkoutIntoNewFolder env repoUrl branchName branchFolderPath))"

definition cloneBranchToFolder ::
  "'w env \<Rightarrow> string \<Rightarrow> string \<Rightarrow> path \<Rightarrow> ('w, unit) action" where
  "cloneBranchToFolder env repoUrl branchName parentFolderPath =
     tryCatch (cloneBranchToFolder_try env repoUrl branchName parentFolderPath)
       (\<lambda>error. logger_error (ErrorCloningBranch branchName error))"

section \<open>cloneRepository\<close>

text \<open>
  Lines 78 to 101: the repository folder is created when it is missing, initialised, its
  \<^verbatim>\<open>origin\<close> configured, and the remote's refs are listed. The result is the listing.
\<close>

definition listRemoteBranches :: "'w env \<Rightarrow> string \<Rightarrow> path \<Rightarrow> ('w, string) action" where
  "listRemoteBranches env repoUrl repoFolderPath =
     andThen (existsSync env repoFolderPath) (\<lambda>present.
     andThen (if \<not> present then
                andThen (logger_info (FolderDoesNotExist repoFolderPath)) (\<lambda>_.
                mkdirSync env repoFolderPath)
              else ret ()) (\<lambda>_.
     andThen (logger_info (InitializingFolder repoFolderPath)) (\<lambda>_.
     andThen (git_init env repoFolderPath) (\<lambda>_.
     andThen (configureOrigin env repoFolderPath repoUrl) (\<lambda>_.
     andThen (logger_info FetchingBranchInformation) (\<lambda>_.
     git_raw env repoFolderPath [''ls-remote'', ''--refs'', repoUrl]))))))"

text \<open>The \<^verbatim>\<open>for ... of\<close> loop of lines 123 to 125.\<close>

fun cloneEachBranch :: "'w env \<Rightarrow> string \<Rightarrow> string list \<Rightarrow> path \<Rightarrow> ('w, unit) action" where
  "cloneEachBranch env repoUrl [] repoFolderPath = ret ()"
| "cloneEachBranch env repoUrl (branchName # rest) repoFolderPath =
     andThen (cloneBranchToFolder env repoUrl branchName repoFolderPath) (\<lambda>_.
     cloneEachBranch env repoUrl rest repoFolderPath)"

text \<open>Lines 122 to 130.\<close>

definition cloneSelectedBranches ::
  "'w env \<Rightarrow> string \<Rightarrow> string list \<Rightarrow> path \<Rightarrow> bool \<Rightarrow> ('w, unit) action" where
  "cloneSelectedBranches env repoUrl remoteBranchNames repoFolderPath cloneAllBranches =
     (if cloneAllBranches then cloneEachBranch env repoUrl remoteBranchNames repoFolderPath
      else
        (let mainBranch = (if ''main'' \<in> set remoteBranchNames then ''main'' else ''master'')
         in cloneBranchToFolder env repoUrl mainBranch repoFolderPath))"

text \<open>
  The body of the \<^verbatim>\<open>try\<close> block, lines 75 to 130. \<^verbatim>\<open>!remoteBranches\<close> holds of the empty
  listing.
\<close>

definition cloneRepository_try ::
  "'w env \<Rightarrow> string \<Rightarrow> path \<Rightarrow> string \<Rightarrow> bool \<Rightarrow> ('w, unit) action" where
  "cloneRepository_try env repoUrl parentFolderPath repoName cloneAllBranches =
     (let repoFolderPath = path_join env parentFolderPath repoName
      in andThen (listRemoteBranches env repoUrl repoFolderPath) (\<lambda>remoteBranches.
           if remoteBranches = [] then logger_warn CouldNotFetchBranchInformation
           else
             (let remoteBranchNames = parseBranchNames remoteBranches
              in if length remoteBranchNames = 0 then logger_warn NoRemoteBranchesFound
                 else
                   andThen (logger_info (RemoteBranches remoteBranchNames)) (\<lambda>_.
                   cloneSelectedBranches env repoUrl remoteBranchNames repoFolderPath
                     cloneAllBranches))))"

definition cloneRepository ::
  "'w env \<Rightarrow> string \<Rightarrow> path \<Rightarrow> string \<Rightarrow> bool \<Rightarrow> ('w, unit) action" where
  "cloneRepository env repoUrl parentFolderPath repoName cloneAllBranches =
     tryCatch (cloneRepository_try env repoUrl parentFolderPath repoName cloneAllBranches)
       (\<lambda>error. logger_error (ErrorCloningRepository error))"

section \<open>A disk and a remote to run the program on\<close>

text \<open>
  One environment, for running the definitions above on concrete inputs. Its world lists
  the paths that exist, the remotes configured in each folder (folder, name, URL), what
  the remote answers to \<^verbatim>\<open>ls-remote --refs\<close>, the branches a checkout finds after a fetch,
  and the branch checked out in each folder. Its version control behaves as git does:
  \<^verbatim>\<open>remote show\<close> prints the configured names, one a line; \<^verbatim>\<open>remote add\<close> fails on a
  name that is configured already; \<^verbatim>\<open>remote set-url\<close> fails on a name that is not; a
  checkout fails on a branch that is not there. Paths are joined with a slash.
\<close>

record disk =
  folders :: "path list"
  remote_table :: "(path \<times> string \<times> string) list"
  ls_remote :: string
  heads :: "string list"
  worktrees :: "(path \<times> string) list"

definition remotes_of :: "disk \<Rightarrow> path \<Rightarrow> (string \<times> string) list" where
  "remotes_of w p = map snd (filter (\<lambda>r. fst r = p) (remote_table w))"

definition sim_join :: "path \<Rightarrow> string \<Rightarrow> path" where
  "sim_join p n = p @ ''/'' @ n"

definition sim_exists :: "path \<Rightarrow> disk \<Rightarrow> bool" where
  "sim_exists p w \<longleftrightarrow> p \<in> set (folders w)"

definition sim_mkdir :: "path \<Rightarrow> disk \<Rightarrow> (exn + unit) \<times> disk" where
  "sim_mkdir p w = (Inr (), w\<lparr>folders := List.insert p (folders w)\<rparr>)"

definition sim_init :: "path \<Rightarrow> disk \<Rightarrow> (exn + unit) \<times> disk" where
  "sim_init p w =
     (if p \<in> set (folders w) then (Inr (), w)
      else (Inl (Exn ''Cannot use simple-git on a directory that does not exist''), w))"

definition sim_remote_show :: "disk \<Rightarrow> path \<Rightarrow> string" where
  "sim_remote_show w p = concat (map (\<lambda>r. fst r @ [newline]) (remotes_of w p))"

definition sim_remote_add :: "path \<Rightarrow> string \<Rightarrow> string \<Rightarrow> disk \<Rightarrow> (exn + string) \<times> disk" where
  "sim_remote_add p n u w =
     (if n \<in> set (map fst (remotes_of w p))
      then (Inl (Exn (''error: remote '' @ n @ '' already exists.'')), w)
      else (Inr [], w\<lparr>remote_table := remote_table w @ [(p, n, u)]\<rparr>))"

definition sim_remote_set_url :: "path \<Rightarrow> string \<Rightarrow> string \<Rightarrow> disk \<Rightarrow> (exn + string) \<times> disk" where
  "sim_remote_set_url p n u w =
     (if n \<in> set (map fst (remotes_of w p))
      then (Inr [], w\<lparr>remote_table :=
              map (\<lambda>r. if fst r = p \<and> fst (snd r) = n then (p, n, u) else r) (remote_table w)\<rparr>)
      else (Inl (Exn (''error: No such remote '' @ n)), w))"

fun sim_raw :: "path \<Rightarrow> string list \<Rightarrow> disk \<Rightarrow> (exn + string) \<times> disk" where
  "sim_raw p [a, b] w =
     (if a = ''remote'' \<and> b = ''show'' then (Inr (sim_remote_show w p), w)
      else (Inl (Exn ''git: unknown command''), w))"
| "sim_raw p [a, b, c] w =
     (if a = ''ls-remote'' \<and> b = ''--refs'' then (Inr (ls_remote w), w)
      else (Inl (Exn ''git: unknown command''), w))"
| "sim_raw p [a, b, c, d] w =
     (if a = ''remote'' \<and> b = ''add'' then sim_remote_add p c d w
      else if a = ''remote'' \<and> b = ''set-url'' then sim_remote_set_url p c d w
      else (Inl (Exn ''git: unknown command''), w))"
| "sim_raw p args w = (Inl (Exn ''git: unknown command''), w)"

definition sim_fetch :: "path \<Rightarrow> disk \<Rightarrow> (exn + unit) \<times> disk" where
  "sim_fetch p w = (Inr (), w)"

fun sim_checkout :: "path \<Rightarrow> string list \<Rightarrow> disk \<Rightarrow> (exn + unit) \<times> disk" where
  "sim_checkout p [b] w =
     (if b \<in> set (heads w) then (Inr (), w\<lparr>worktrees := (p, b) # worktrees w\<rparr>)
      else (Inl (Exn (''error: pathspec '' @ b @ '' did not match'')), w))"
| "sim_checkout p args w = (Inl (Exn ''git: unknown command''), w)"

definition sim :: "disk env" where
  "sim = \<lparr>path_join = sim_join, exists_at = sim_exists, mkdir_at = sim_mkdir,
          init_at = sim_init, raw_at = sim_raw, fetch_at = sim_fetch,
          checkout_at = sim_checkout\<rparr>"

definition listing_line :: "string \<Rightarrow> string \<Rightarrow> string" where
  "listing_line hash ref = hash @ [tab] @ ref @ [newline]"

text \<open>
  A disk with nothing on it, in front of a remote that answers \<^verbatim>\<open>ls-remote\<close> with the
  given listing and has the given branches to check out; and the state a run starts in.
\<close>

definition fresh_disk :: "string \<Rightarrow> string list \<Rightarrow> disk" where
  "fresh_disk listing branches =
     \<lparr>folders = [], remote_table = [], ls_remote = listing, heads = branches, worktrees = []\<rparr>"

definition start :: "disk \<Rightarrow> disk state" where
  "start w = \<lparr>world = w, trace = []\<rparr>"

definition heads_listing :: "string list \<Rightarrow> string" where
  "heads_listing branches = concat (map (\<lambda>b. listing_line ''0a1b2c'' (refs_heads @ b)) branches)"

text \<open>The inputs of the examples below.\<close>

definition repo_url :: string where
  "repo_url = ''https://github.com/owner/repo.git''"

text \<open>Nothing on disk; the remote lists the first branches and has the second to check out.\<close>

definition before_clone :: "string list \<Rightarrow> string list \<Rightarrow> disk state" where
  "before_clone listed available = start (fresh_disk (heads_listing listed) available)"

text \<open>The folder of the branch \<^verbatim>\<open>feature/x\<close> is on disk already.\<close>

definition feature_folder_present :: "disk state" where
  "feature_folder_present =
     start ((fresh_disk [] [])\<lparr>folders := [''clones/r'', ''clones/r/feature_x'']\<rparr>)"

text \<open>
  The repository folder is on disk and has one remote, named \<^verbatim>\<open>my-origin\<close>; none is
  named \<^verbatim>\<open>origin\<close>.
\<close>

definition beside_my_origin :: "disk state" where
  "beside_my_origin =
     start ((fresh_disk [] [])\<lparr>folders := [''clones/r''],
       remote_table := [(''clones/r'', ''my-origin'', ''https://github.com/fork/repo.git'')]\<rparr>)"

text \<open>The remote lists one tag and no branch.\<close>

definition tags_only :: "disk state" where
  "tags_only = start (fresh_disk (listing_line ''0a1b2c'' ''refs/tags/v1'') [])"

section \<open>Reading a trace\<close>

text \<open>The events a run adds to the trace it starts from.\<close>

definition events_since :: "'w state \<Rightarrow> 'w state \<Rightarrow> event list" where
  "events_since s s' = drop (length (trace s)) (trace s')"

text \<open>
  \<^verbatim>\<open>cloneBranchToFolder\<close> opens with the existence check of its target path and makes no
  other, so the checks of a sequence of its calls are the attempts, in order.
\<close>

fun existence_checks :: "event list \<Rightarrow> path list" where
  "existence_checks [] = []"
| "existence_checks (ExistsSync p # evs) = p # existence_checks evs"
| "existence_checks (ev # evs) = existence_checks evs"

text \<open>
  The three ways a call of \<^verbatim>\<open>cloneBranchToFolder\<close> ends, each at a log statement of its
  own: the folder was there (line 35), the branch is checked out (line 66), a call threw
  (line 68).
\<close>

datatype terminal = Skipped path | Done string path | Failed string exn

fun terminal_of :: "event \<Rightarrow> terminal option" where
  "terminal_of (Log l (SubfolderExists p)) = Some (Skipped p)"
| "terminal_of (Log l (CheckedOut b p)) = Some (Done b p)"
| "terminal_of (Log l (ErrorCloningBranch b e)) = Some (Failed b e)"
| "terminal_of ev = None"

fun terminals :: "event list \<Rightarrow> terminal list" where
  "terminals [] = []"
| "terminals (ev # evs) =
     (case terminal_of ev of None \<Rightarrow> terminals evs | Some t \<Rightarrow> t # terminals evs)"

text \<open>The terminal state is the one of branch \<open>b\<close> with target path \<open>p\<close>.\<close>

fun terminal_for :: "path \<Rightarrow> string \<Rightarrow> terminal \<Rightarrow> bool" where
  "terminal_for p b (Skipped q) \<longleftrightarrow> q = p"
| "terminal_for p b (Done c q) \<longleftrightarrow> c = b \<and> q = p"
| "terminal_for p b (Failed c e) \<longleftrightarrow> c = b"

definition targetPath :: "'w env \<Rightarrow> path \<Rightarrow> string \<Rightarrow> path" where
  "targetPath env parentFolderPath branchName =
     path_join env parentFolderPath (sanitizeFolderName branchName)"

definition own_terminal :: "'w env \<Rightarrow> path \<Rightarrow> string \<Rightarrow> terminal \<Rightarrow> bool" where
  "own_terminal env parentFolderPath branchName t =
     terminal_for (targetPath env parentFolderPath branchName) branchName t"

text \<open>
  A list of events is quiet when it holds no existence check and no terminal log
  statement; an action is quiet when the events it adds are, whatever it returns or throws.
\<close>

definition quiet :: "event list \<Rightarrow> bool" where
  "quiet evs \<longleftrightarrow> existence_checks evs = [] \<and> terminals evs = []"

definition quiet_action :: "('w, 'a) action \<Rightarrow> bool" where
  "quiet_action m \<longleftrightarrow> (\<forall>s. \<exists>evs. trace (snd (m s)) = trace s @ evs \<and> quiet evs)"

text \<open>
  An action ends with an event when that event is the last it adds if it returns, with
  quiet events before it, and it adds quiet events only if it throws.
\<close>

definition ends_with :: "event \<Rightarrow> ('w, 'a) action \<Rightarrow> bool" where
  "ends_with final m \<longleftrightarrow>
     (\<forall>s. \<exists>evs. quiet evs \<and>
        trace (snd (m s)) = trace s @ evs @ (case fst (m s) of Inl e \<Rightarrow> [] | Inr x \<Rightarrow> [final]))"

section \<open>The ref listing, as the specification words it\<close>

text \<open>
  The pieces of a text between the occurrences of a separator: up to the first
  occurrence, then the pieces of what follows it.
\<close>

function pieces :: "char \<Rightarrow> string \<Rightarrow> string list" where
  "pieces sep s =
     (if sep \<in> set s
      then takeWhile (\<lambda>c. c \<noteq> sep) s # pieces sep (tl (dropWhile (\<lambda>c. c \<noteq> sep) s))
      else [s])"
  by pat_completeness auto
termination
proof (relation "measure (\<lambda>(sep, s). length s)")
  show "wf (measure (\<lambda>(sep, s). length s))"
    by simp
next
  fix sep :: char and s :: string
  assume "sep \<in> set s"
  then have "dropWhile (\<lambda>c. c \<noteq> sep) s \<noteq> []"
    by auto
  then have "length (tl (dropWhile (\<lambda>c. c \<noteq> sep) s)) < length (dropWhile (\<lambda>c. c \<noteq> sep) s)"
    by (cases "dropWhile (\<lambda>c. c \<noteq> sep) s") simp_all
  also have "\<dots> \<le> length s"
    by (rule length_dropWhile_le)
  finally show "((sep, tl (dropWhile (\<lambda>c. c \<noteq> sep) s)), (sep, s)) \<in> measure (\<lambda>(sep, s). length s)"
    by simp
qed

declare pieces.simps [simp del]

definition second_field :: "string \<Rightarrow> string option" where
  "second_field line = (case pieces tab line of _ # f # _ \<Rightarrow> Some f | _ \<Rightarrow> None)"

text \<open>
  The text is split into lines, each line is split on tab and its second field kept,
  the fields with the prefix \<^verbatim>\<open>refs/heads/\<close> are kept and the prefix is stripped; the
  order of the lines is kept.
\<close>

definition branchSet_spec :: "string \<Rightarrow> string list" where
  "branchSet_spec listing =
     map (drop (length refs_heads))
       (filter (\<lambda>f. take (length refs_heads) f = refs_heads)
         (List.map_filter second_field (pieces newline listing)))"

section \<open>The ref listing is parsed as specified\<close>

lemma str_split_pieces: "str_split sep s = pieces sep s"
proof (induction s)
  case Nil
  show ?case by (subst pieces.simps) simp
next
  case (Cons c cs)
  show ?case
  proof (cases "c = sep")
    case True
    then show ?thesis
      using Cons.IH by (subst pieces.simps) simp
  next
    case False
    note neq = this
    show ?thesis
    proof (cases "sep \<in> set cs")
      case True
      have "pieces sep cs =
          takeWhile (\<lambda>c. c \<noteq> sep) cs # pieces sep (tl (dropWhile (\<lambda>c. c \<noteq> sep) cs))"
        using True by (subst pieces.simps) simp
      moreover have "pieces sep (c # cs) =
          (c # takeWhile (\<lambda>c. c \<noteq> sep) cs) # pieces sep (tl (dropWhile (\<lambda>c. c \<noteq> sep) cs))"
        using True neq by (subst pieces.simps) simp
      ultimately show ?thesis
        using neq Cons.IH by (simp add: Let_def)
    next
      case False
      have "pieces sep cs = [cs]"
        using False by (subst pieces.simps) simp
      moreover have "pieces sep (c # cs) = [c # cs]"
        using False neq by (subst pieces.simps) simp
      ultimately show ?thesis
        using neq Cons.IH by (simp add: Let_def)
    qed
  qed
qed

lemma at_index_second: "at_index xs 1 = (case xs of _ # f # _ \<Rightarrow> Some f | _ \<Rightarrow> None)"
  by (cases xs; cases "tl xs") (auto simp: at_index_def)

lemma str_replace_prefix: "startsWith b p \<Longrightarrow> p \<noteq> [] \<Longrightarrow> str_replace b p r = r @ drop (length p) b"
  by (cases b) (auto simp: startsWith_def)

lemma is_head_ref_None: "is_head_ref None \<longleftrightarrow> False"
  by (simp add: is_head_ref_def)

lemma is_head_ref_Some: "is_head_ref (Some b) \<longleftrightarrow> take (length refs_heads) b = refs_heads"
  by (auto simp: is_head_ref_def startsWith_def refs_heads_def)

lemma head_refs_fields:
  "map (\<lambda>branch. str_replace (the branch) refs_heads []) (filter is_head_ref (map g xs)) =
   map (drop (length refs_heads))
     (filter (\<lambda>f. take (length refs_heads) f = refs_heads) (List.map_filter g xs))"
proof (induction xs)
  case Nil
  show ?case by (simp add: List.map_filter_simps)
next
  case (Cons x xs)
  have nonempty: "refs_heads \<noteq> []"
    by (simp add: refs_heads_def)
  show ?case
  proof (cases "g x")
    case None
    then show ?thesis
      using Cons.IH by (simp add: List.map_filter_simps is_head_ref_None)
  next
    case (Some b)
    show ?thesis
    proof (cases "take (length refs_heads) b = refs_heads")
      case True
      then have "startsWith b refs_heads"
        by (simp add: startsWith_def)
      then have "str_replace b refs_heads [] = drop (length refs_heads) b"
        using str_replace_prefix [of b refs_heads "[]"] nonempty by simp
      then show ?thesis
        using Some True Cons.IH by (simp add: List.map_filter_simps is_head_ref_Some)
    next
      case False
      then show ?thesis
        using Some Cons.IH by (simp add: List.map_filter_simps is_head_ref_Some)
    qed
  qed
qed

lemma second_field_at_index: "second_field line = at_index (str_split tab line) 1"
  unfolding second_field_def at_index_second str_split_pieces ..

text \<open>
  Claim C7. For every raw ref-listing text, the branch names the program derives are
  those obtained by splitting the text into lines, splitting each line on tab and keeping
  the second field, keeping the fields with the prefix \<^verbatim>\<open>refs/heads/\<close> and stripping
  that prefix, in the order of the lines; and the listing of a \<^verbatim>\<open>main\<close> head, a tag
  \<^verbatim>\<open>v1\<close> and a \<^verbatim>\<open>dev\<close> head, each line a hash, a tab and the ref, parses to
  \<^verbatim>\<open>main\<close>, \<^verbatim>\<open>dev\<close>.
\<close>

theorem parseBranchNames_refines_spec:
  "parseBranchNames listing = branchSet_spec listing \<and>
   parseBranchNames
     (''<hash1>'' @ [tab] @ ''refs/heads/main'' @ [newline] @
      ''<hash2>'' @ [tab] @ ''refs/tags/v1'' @ [newline] @
      ''<hash3>'' @ [tab] @ ''refs/heads/dev'' @ [newline]) = [''main'', ''dev'']"
proof
  have "(\<lambda>line. at_index (str_split tab line) 1) = second_field"
    by (rule ext) (rule second_field_at_index [symmetric])
  then show "parseBranchNames listing = branchSet_spec listing"
    unfolding parseBranchNames_def branchSet_spec_def head_refs_fields
    by (simp only: str_split_pieces)
next
  show "parseBranchNames
     (''<hash1>'' @ [tab] @ ''refs/heads/main'' @ [newline] @
      ''<hash2>'' @ [tab] @ ''refs/tags/v1'' @ [newline] @
      ''<hash3>'' @ [tab] @ ''refs/heads/dev'' @ [newline]) = [''main'', ''dev'']"
    by code_simp
qed

section \<open>Sanitized names\<close>

text \<open>
  Claim C8. For every branch name, the sanitized folder name holds none of the nine
  characters of the pattern: it has the length of the name, with an underscore at every
  position where the name has one of them and the name's character everywhere else; and
  a name that holds none of them is returned unchanged.
\<close>

theorem sanitizeFolderName_correct:
  "(\<forall>c \<in> set (sanitizeFolderName name). c \<notin> set invalid_chars) \<and>
   (set name \<inter> set invalid_chars = {} \<longrightarrow> sanitizeFolderName name = name) \<and>
   length (sanitizeFolderName name) = length name \<and>
   (\<forall>i < length name. sanitizeFolderName name ! i =
      (if name ! i \<in> set invalid_chars then CHR ''_'' else name ! i))"
proof (intro conjI)
  have underscore: "CHR ''_'' \<notin> set invalid_chars"
    by (simp add: invalid_chars_def)
  then show "\<forall>c \<in> set (sanitizeFolderName name). c \<notin> set invalid_chars"
    by (auto simp: sanitizeFolderName_def)
next
  show "set name \<inter> set invalid_chars = {} \<longrightarrow> sanitizeFolderName name = name"
  proof
    assume "set name \<inter> set invalid_chars = {}"
    then have "\<forall>c \<in> set name. c \<notin> set invalid_chars"
      by blast
    then show "sanitizeFolderName name = name"
      unfolding sanitizeFolderName_def by (induction name) simp_all
  qed
next
  show "length (sanitizeFolderName name) = length name"
    by (simp add: sanitizeFolderName_def)
next
  show "\<forall>i < length name. sanitizeFolderName name ! i =
      (if name ! i \<in> set invalid_chars then CHR ''_'' else name ! i)"
    by (simp add: sanitizeFolderName_def)
qed

text \<open>
  The theorem at \<^verbatim>\<open>feature/x\<close>, which holds a slash, and at \<^verbatim>\<open>develop\<close>, which holds
  none of the characters.
\<close>

theorem sanitizeFolderName_correct_witness:
  "sanitizeFolderName ''feature/x'' = ''feature_x'' \<and>
   CHR ''/'' \<notin> set (sanitizeFolderName ''feature/x'') \<and>
   set ''develop'' \<inter> set invalid_chars = {} \<and>
   sanitizeFolderName ''develop'' = ''develop''"
proof -
  have clean: "set ''develop'' \<inter> set invalid_chars = {}"
    by (simp add: invalid_chars_def)
  have slash: "CHR ''/'' \<in> set invalid_chars"
    by (simp add: invalid_chars_def)
  have "set ''develop'' \<inter> set invalid_chars = {} \<longrightarrow> sanitizeFolderName ''develop'' = ''develop''"
    by (rule conjunct1 [OF conjunct2 [OF sanitizeFolderName_correct]])
  then have unchanged: "sanitizeFolderName ''develop'' = ''develop''"
    using clean by (rule mp)
  have none: "\<forall>c \<in> set (sanitizeFolderName ''feature/x''). c \<notin> set invalid_chars"
    by (rule conjunct1 [OF sanitizeFolderName_correct])
  have gone: "CHR ''/'' \<notin> set (sanitizeFolderName ''feature/x'')"
  proof
    assume "CHR ''/'' \<in> set (sanitizeFolderName ''feature/x'')"
    with none have "CHR ''/'' \<notin> set invalid_chars"
      by (rule bspec)
    with slash show False
      by (rule notE [rotated])
  qed
  have replaced: "sanitizeFolderName ''feature/x'' = ''feature_x''"
    by code_simp
  show ?thesis
    by (intro conjI replaced gone clean unchanged)
qed

section \<open>The events an action adds\<close>

lemma existence_checks_append:
  "existence_checks (xs @ ys) = existence_checks xs @ existence_checks ys"
  by (induction xs rule: existence_checks.induct) simp_all

lemma terminals_append: "terminals (xs @ ys) = terminals xs @ terminals ys"
  by (induction xs) (simp_all split: option.splits)

lemma quiet_Nil: "quiet []"
  by (simp add: quiet_def)

lemma quiet_append: "quiet xs \<Longrightarrow> quiet ys \<Longrightarrow> quiet (xs @ ys)"
  by (simp add: quiet_def existence_checks_append terminals_append)

lemma events_since_append: "trace s' = trace s @ evs \<Longrightarrow> events_since s s' = evs"
  by (simp add: events_since_def)

lemma quiet_action_ret: "quiet_action (ret x)"
  by (simp add: quiet_action_def ret_def quiet_Nil)

lemma trace_perform: "trace (snd (perform ev f s)) = trace s @ [ev]"
  by (simp add: perform_def emit_def split: prod.splits)

lemma quiet_action_perform: "quiet [ev] \<Longrightarrow> quiet_action (perform ev f)"
  unfolding quiet_action_def using trace_perform by blast

lemma quiet_action_logger_info: "quiet [Log LInfo m] \<Longrightarrow> quiet_action (logger_info m)"
  unfolding quiet_action_def
proof
  fix s :: "'a state"
  assume "quiet [Log LInfo m]"
  moreover have "trace (snd (logger_info m s)) = trace s @ [Log LInfo m]"
    by (simp add: logger_info_def emit_def)
  ultimately show "\<exists>evs. trace (snd (logger_info m s)) = trace s @ evs \<and> quiet evs"
    by blast
qed

lemma quiet_action_andThen:
  assumes "quiet_action m" and "\<And>x. quiet_action (k x)"
  shows "quiet_action (andThen m k)"
  unfolding quiet_action_def
proof
  fix s
  obtain r s1 where run: "m s = (r, s1)"
    by (cases "m s")
  obtain evs where evs: "trace s1 = trace s @ evs" "quiet evs"
    using assms(1) run unfolding quiet_action_def by (metis snd_conv)
  show "\<exists>evs. trace (snd (andThen m k s)) = trace s @ evs \<and> quiet evs"
  proof (cases r)
    case (Inl e)
    then show ?thesis
      using run evs by (auto simp: andThen_def)
  next
    case (Inr x)
    obtain evs' where evs': "trace (snd (k x s1)) = trace s1 @ evs'" "quiet evs'"
      using assms(2) unfolding quiet_action_def by blast
    have "trace (snd (andThen m k s)) = trace s @ (evs @ evs')"
      using run Inr evs evs' by (simp add: andThen_def)
    then show ?thesis
      using quiet_append [OF evs(2) evs'(2)] by blast
  qed
qed

lemma quiet_git_raw: "quiet_action (git_raw env p args)"
  unfolding git_raw_def by (rule quiet_action_perform) (simp add: quiet_def)

lemma quiet_git_init: "quiet_action (git_init env p)"
  unfolding git_init_def by (rule quiet_action_perform) (simp add: quiet_def)

lemma quiet_git_fetch: "quiet_action (git_fetch env p)"
  unfolding git_fetch_def by (rule quiet_action_perform) (simp add: quiet_def)

lemma quiet_git_checkout: "quiet_action (git_checkout env p args)"
  unfolding git_checkout_def by (rule quiet_action_perform) (simp add: quiet_def)

lemma quiet_mkdirSync: "quiet_action (mkdirSync env p)"
  unfolding mkdirSync_def by (rule quiet_action_perform) (simp add: quiet_def)

lemma quiet_configureOrigin: "quiet_action (configureOrigin env p url)"
  unfolding configureOrigin_def
  by (intro quiet_action_andThen quiet_git_raw)
    (auto intro!: quiet_action_andThen quiet_git_raw quiet_action_ret quiet_action_logger_info
      simp: quiet_def)

lemma ends_with_logger_info: "ends_with (Log LInfo m) (logger_info m)"
  unfolding ends_with_def
proof
  fix s :: "'a state"
  have "trace (snd (logger_info m s)) =
      trace s @ [] @ (case fst (logger_info m s) of Inl e \<Rightarrow> [] | Inr x \<Rightarrow> [Log LInfo m])"
    by (simp add: logger_info_def emit_def)
  then show "\<exists>evs. quiet evs \<and> trace (snd (logger_info m s)) =
      trace s @ evs @ (case fst (logger_info m s) of Inl e \<Rightarrow> [] | Inr x \<Rightarrow> [Log LInfo m])"
    using quiet_Nil by blast
qed

lemma ends_with_andThen:
  assumes "quiet_action m" and "\<And>x. ends_with final (k x)"
  shows "ends_with final (andThen m k)"
  unfolding ends_with_def
proof
  fix s
  obtain r s1 where run: "m s = (r, s1)"
    by (cases "m s")
  obtain evs where evs: "trace s1 = trace s @ evs" "quiet evs"
    using assms(1) run unfolding quiet_action_def by (metis snd_conv)
  show "\<exists>evs. quiet evs \<and> trace (snd (andThen m k s)) =
      trace s @ evs @ (case fst (andThen m k s) of Inl e \<Rightarrow> [] | Inr x \<Rightarrow> [final])"
  proof (cases r)
    case (Inl e)
    then have "trace (snd (andThen m k s)) =
        trace s @ evs @ (case fst (andThen m k s) of Inl e \<Rightarrow> [] | Inr x \<Rightarrow> [final])"
      using run evs by (simp add: andThen_def)
    then show ?thesis
      using evs(2) by blast
  next
    case (Inr x)
    obtain evs' where evs': "quiet evs'"
      "trace (snd (k x s1)) =
         trace s1 @ evs' @ (case fst (k x s1) of Inl e \<Rightarrow> [] | Inr x \<Rightarrow> [final])"
      using assms(2) unfolding ends_with_def by blast
    have "andThen m k s = k x s1"
      using run Inr by (simp add: andThen_def)
    then have "trace (snd (andThen m k s)) =
        trace s @ (evs @ evs') @ (case fst (andThen m k s) of Inl e \<Rightarrow> [] | Inr x \<Rightarrow> [final])"
      using evs evs' by simp
    then show ?thesis
      using quiet_append [OF evs(2) evs'(1)] by blast
  qed
qed

section \<open>One call of cloneBranchToFolder, and the loop over the branches\<close>

lemma ends_with_checkoutIntoNewFolder:
  "ends_with (Log LInfo (CheckedOut b p)) (checkoutIntoNewFolder env url b p)"
  unfolding checkoutIntoNewFolder_def
  by (intro ends_with_andThen ends_with_logger_info quiet_mkdirSync quiet_git_init
      quiet_configureOrigin quiet_git_fetch quiet_git_checkout quiet_action_logger_info)
    (simp_all add: quiet_def)

lemma existsSync_run:
  "existsSync env p s = (Inr (exists_at env p (world s)), emit (ExistsSync p) s)"
  by (simp add: existsSync_def perform_def emit_def)

lemma cloneBranchToFolder_try_present:
  assumes "exists_at env (targetPath env parent b) (world s)"
  shows "cloneBranchToFolder_try env url b parent s =
    (Inr (), s\<lparr>trace := trace s @
       [ExistsSync (targetPath env parent b), Log LInfo (SubfolderExists (targetPath env parent b))]\<rparr>)"
  using assms
  by (simp add: cloneBranchToFolder_try_def targetPath_def andThen_def existsSync_run
      logger_info_def emit_def Let_def)

lemma cloneBranchToFolder_try_absent:
  assumes "\<not> exists_at env (targetPath env parent b) (world s)"
  shows "cloneBranchToFolder_try env url b parent s =
    checkoutIntoNewFolder env url b (targetPath env parent b)
      (emit (ExistsSync (targetPath env parent b)) s)"
  using assms
  by (simp add: cloneBranchToFolder_try_def targetPath_def andThen_def existsSync_run Let_def)

lemma cloneBranchToFolder_run:
  "fst (cloneBranchToFolder env url b parent s) = Inr () \<and>
   (\<exists>evs final t.
      trace (snd (cloneBranchToFolder env url b parent s)) =
        trace s @ [ExistsSync (targetPath env parent b)] @ evs @ [final] \<and>
      quiet evs \<and> terminal_of final = Some t \<and> own_terminal env parent b t)"
proof (cases "exists_at env (targetPath env parent b) (world s)")
  case True
  have eq: "cloneBranchToFolder env url b parent s =
      (Inr (), s\<lparr>trace := trace s @ [ExistsSync (targetPath env parent b)] @ [] @
         [Log LInfo (SubfolderExists (targetPath env parent b))]\<rparr>)"
    using cloneBranchToFolder_try_present [OF True]
    by (simp add: cloneBranchToFolder_def tryCatch_def)
  have "fst (cloneBranchToFolder env url b parent s) = Inr ()"
    by (simp add: eq)
  moreover have "trace (snd (cloneBranchToFolder env url b parent s)) =
      trace s @ [ExistsSync (targetPath env parent b)] @ [] @
        [Log LInfo (SubfolderExists (targetPath env parent b))]"
    by (simp add: eq)
  moreover have "terminal_of (Log LInfo (SubfolderExists (targetPath env parent b))) =
      Some (Skipped (targetPath env parent b))"
    by simp
  moreover have "own_terminal env parent b (Skipped (targetPath env parent b))"
    by (simp add: own_terminal_def)
  ultimately show ?thesis
    using quiet_Nil by blast
next
  case False
  let ?p = "targetPath env parent b"
  let ?s0 = "emit (ExistsSync ?p) s"
  let ?rest = "checkoutIntoNewFolder env url b ?p"
  have try_eq: "cloneBranchToFolder_try env url b parent s = ?rest ?s0"
    by (rule cloneBranchToFolder_try_absent [OF False])
  obtain evs where evs: "quiet evs"
    "trace (snd (?rest ?s0)) =
       trace ?s0 @ evs @ (case fst (?rest ?s0) of Inl e \<Rightarrow> [] | Inr x \<Rightarrow> [Log LInfo (CheckedOut b ?p)])"
    using ends_with_checkoutIntoNewFolder [of b ?p env url] unfolding ends_with_def by blast
  have start: "trace ?s0 = trace s @ [ExistsSync ?p]"
    by (simp add: emit_def)
  obtain r s1 where run: "?rest ?s0 = (r, s1)"
    by (cases "?rest ?s0")
  show ?thesis
  proof (cases r)
    case (Inl e)
    have "cloneBranchToFolder env url b parent s =
        (Inr (), emit (Log LError (ErrorCloningBranch b e)) s1)"
      using try_eq run Inl by (simp add: cloneBranchToFolder_def tryCatch_def logger_error_def)
    moreover have "trace s1 = trace s @ [ExistsSync ?p] @ evs"
      using evs(2) run Inl start by simp
    ultimately have "fst (cloneBranchToFolder env url b parent s) = Inr () \<and>
        trace (snd (cloneBranchToFolder env url b parent s)) =
          trace s @ [ExistsSync ?p] @ evs @ [Log LError (ErrorCloningBranch b e)]"
      by (simp add: emit_def)
    moreover have "terminal_of (Log LError (ErrorCloningBranch b e)) = Some (Failed b e)"
      by simp
    moreover have "own_terminal env parent b (Failed b e)"
      by (simp add: own_terminal_def)
    ultimately show ?thesis
      using evs(1) by blast
  next
    case (Inr x)
    have "cloneBranchToFolder env url b parent s = (Inr (), s1)"
      using try_eq run Inr by (simp add: cloneBranchToFolder_def tryCatch_def)
    moreover have "trace s1 = trace s @ [ExistsSync ?p] @ evs @ [Log LInfo (CheckedOut b ?p)]"
      using evs(2) run Inr start by simp
    ultimately have "fst (cloneBranchToFolder env url b parent s) = Inr () \<and>
        trace (snd (cloneBranchToFolder env url b parent s)) =
          trace s @ [ExistsSync ?p] @ evs @ [Log LInfo (CheckedOut b ?p)]"
      by simp
    moreover have "terminal_of (Log LInfo (CheckedOut b ?p)) = Some (Done b ?p)"
      by simp
    moreover have "own_terminal env parent b (Done b ?p)"
      by (simp add: own_terminal_def)
    ultimately show ?thesis
      using evs(1) by blast
  qed
qed

lemma cloneBranchToFolder_events:
  "fst (cloneBranchToFolder env url b parent s) = Inr () \<and>
   (\<exists>evs t.
      trace (snd (cloneBranchToFolder env url b parent s)) = trace s @ evs \<and>
      existence_checks evs = [targetPath env parent b] \<and>
      terminals evs = [t] \<and> own_terminal env parent b t)"
proof -
  obtain evs final t where run:
    "fst (cloneBranchToFolder env url b parent s) = Inr ()"
    "trace (snd (cloneBranchToFolder env url b parent s)) =
       trace s @ [ExistsSync (targetPath env parent b)] @ evs @ [final]"
    "quiet evs" "terminal_of final = Some t" "own_terminal env parent b t"
    using cloneBranchToFolder_run [of env url b parent s] by blast
  have no_check: "existence_checks [final] = []"
    using run(4) by (cases final) simp_all
  have "existence_checks ([ExistsSync (targetPath env parent b)] @ evs @ [final]) =
      [targetPath env parent b]"
    using run(3) no_check by (simp add: existence_checks_append quiet_def)
  moreover have "terminals ([ExistsSync (targetPath env parent b)] @ evs @ [final]) = [t]"
    using run(3,4) by (simp add: terminals_append quiet_def)
  ultimately show ?thesis
    using run(1,2,5) by blast
qed

lemma cloneEachBranch_events:
  "fst (cloneEachBranch env url names folder s) = Inr () \<and>
   (\<exists>evs.
      trace (snd (cloneEachBranch env url names folder s)) = trace s @ evs \<and>
      existence_checks evs = map (targetPath env folder) names \<and>
      list_all2 (own_terminal env folder) names (terminals evs))"
proof (induction names arbitrary: s)
  case Nil
  have "existence_checks [] = map (targetPath env folder) [] \<and>
      list_all2 (own_terminal env folder) [] (terminals [])"
    by simp
  then show ?case
    by (simp add: ret_def)
next
  case (Cons b names)
  obtain r s1 where first: "cloneBranchToFolder env url b folder s = (r, s1)"
    by (cases "cloneBranchToFolder env url b folder s")
  obtain evs t where one: "r = Inr ()" "trace s1 = trace s @ evs"
    "existence_checks evs = [targetPath env folder b]" "terminals evs = [t]"
    "own_terminal env folder b t"
    using cloneBranchToFolder_events [of env url b folder s] first by auto
  obtain evs' where others:
    "fst (cloneEachBranch env url names folder s1) = Inr ()"
    "trace (snd (cloneEachBranch env url names folder s1)) = trace s1 @ evs'"
    "existence_checks evs' = map (targetPath env folder) names"
    "list_all2 (own_terminal env folder) names (terminals evs')"
    using Cons.IH [of s1] by blast
  have step: "cloneEachBranch env url (b # names) folder s = cloneEachBranch env url names folder s1"
    using first one(1) by (simp add: andThen_def)
  have "trace (snd (cloneEachBranch env url (b # names) folder s)) = trace s @ (evs @ evs')"
    using step others(2) one(2) by simp
  moreover have "existence_checks (evs @ evs') = map (targetPath env folder) (b # names)"
    using one(3) others(3) by (simp add: existence_checks_append)
  moreover have "list_all2 (own_terminal env folder) (b # names) (terminals (evs @ evs'))"
    using one(4,5) others(4) by (simp add: terminals_append)
  moreover have "fst (cloneEachBranch env url (b # names) folder s) = Inr ()"
    using step others(1) by simp
  ultimately show ?case
    by blast
qed

section \<open>Remote configuration, the skip and the two catch blocks\<close>

lemma startsWith_iff: "startsWith s p \<longleftrightarrow> (\<exists>post. s = p @ post)"
proof
  assume "startsWith s p"
  then have "s = p @ drop (length p) s"
    by (metis append_take_drop_id startsWith_def)
  then show "\<exists>post. s = p @ post" ..
next
  assume "\<exists>post. s = p @ post"
  then show "startsWith s p"
    by (auto simp: startsWith_def)
qed

lemma str_includes_iff: "str_includes s p \<longleftrightarrow> (\<exists>pre post. s = pre @ p @ post)"
proof (induction s)
  case Nil
  show ?case by auto
next
  case (Cons c cs)
  show ?case
  proof
    assume "str_includes (c # cs) p"
    then consider "startsWith (c # cs) p" | "str_includes cs p"
      by auto
    then show "\<exists>pre post. c # cs = pre @ p @ post"
    proof cases
      case 1
      then obtain post where "c # cs = [] @ p @ post"
        using startsWith_iff by auto
      then show ?thesis by blast
    next
      case 2
      then obtain pre post where "cs = pre @ p @ post"
        using Cons.IH by blast
      then have "c # cs = (c # pre) @ p @ post"
        by simp
      then show ?thesis by blast
    qed
  next
    assume "\<exists>pre post. c # cs = pre @ p @ post"
    then obtain pre post where split: "c # cs = pre @ p @ post"
      by blast
    show "str_includes (c # cs) p"
    proof (cases pre)
      case Nil
      then have "startsWith (c # cs) p"
        using split startsWith_iff by auto
      then show ?thesis by simp
    next
      case (Cons d pre')
      then have "cs = pre' @ p @ post"
        using split by simp
      then have "str_includes cs p"
        using Cons.IH by blast
      then show ?thesis by simp
    qed
  qed
qed

lemma git_raw_run:
  "git_raw env p args s =
     (fst (raw_at env p args (world s)),
      emit (GitRaw p args) (s\<lparr>world := snd (raw_at env p args (world s))\<rparr>))"
  by (simp add: git_raw_def perform_def split: prod.splits)

text \<open>
  Claim C10. Whatever the listing of the remotes is, the program repoints \<^verbatim>\<open>origin\<close>
  (\<^verbatim>\<open>remote set-url\<close>) exactly when the text \<^verbatim>\<open>origin\<close> occurs somewhere in the
  listing, and adds it (\<^verbatim>\<open>remote add\<close>) otherwise: the three events the configuration
  adds are the listing call, the log statement of the branch taken and the call of that
  branch. Both \<^verbatim>\<open>cloneRepository\<close> and \<^verbatim>\<open>cloneBranchToFolder\<close> configure the remote
  this way.
\<close>

theorem origin_test_is_substring_test:
  assumes "fst (raw_at env folder [''remote'', ''show''] (world s)) = Inr listing"
  shows "events_since s (snd (configureOrigin env folder url s)) =
      [GitRaw folder [''remote'', ''show''],
       Log LInfo (if \<exists>pre post. listing = pre @ ''origin'' @ post
                  then RemoteOriginExists else AddingRemoteOrigin),
       GitRaw folder (if \<exists>pre post. listing = pre @ ''origin'' @ post
                      then [''remote'', ''set-url'', ''origin'', url]
                      else [''remote'', ''add'', ''origin'', url])]"
proof -
  have "trace (snd (configureOrigin env folder url s)) = trace s @
      [GitRaw folder [''remote'', ''show''],
       Log LInfo (if str_includes listing ''origin''
                  then RemoteOriginExists else AddingRemoteOrigin),
       GitRaw folder (if str_includes listing ''origin''
                      then [''remote'', ''set-url'', ''origin'', url]
                      else [''remote'', ''add'', ''origin'', url])]"
    using assms
    by (simp add: configureOrigin_def andThen_def git_raw_run logger_info_def emit_def ret_def
        split: sum.splits)
  then show ?thesis
    unfolding str_includes_iff by (rule events_since_append)
qed

text \<open>
  Claim C2. For every branch name and parent path, in every environment: when the
  sanitized target folder exists, \<^verbatim>\<open>cloneBranchToFolder\<close> checks for it, logs that it
  skips and returns. It makes no other call (no mkdir, init, remote, fetch or checkout),
  and the world, the folder and its contents included, is the one it started from.
\<close>

theorem existing_folder_is_skipped:
  assumes "exists_at env (path_join env parentFolderPath (sanitizeFolderName branchName)) (world s)"
  shows "cloneBranchToFolder env repoUrl branchName parentFolderPath s =
      (Inr (), s\<lparr>trace := trace s @
         [ExistsSync (path_join env parentFolderPath (sanitizeFolderName branchName)),
          Log LInfo (SubfolderExists
            (path_join env parentFolderPath (sanitizeFolderName branchName)))]\<rparr>) \<and>
    world (snd (cloneBranchToFolder env repoUrl branchName parentFolderPath s)) = world s"
proof -
  have "cloneBranchToFolder env repoUrl branchName parentFolderPath s =
      (Inr (), s\<lparr>trace := trace s @
         [ExistsSync (path_join env parentFolderPath (sanitizeFolderName branchName)),
          Log LInfo (SubfolderExists
            (path_join env parentFolderPath (sanitizeFolderName branchName)))]\<rparr>)"
    using cloneBranchToFolder_try_present [of env parentFolderPath branchName s repoUrl] assms
    by (simp add: cloneBranchToFolder_def tryCatch_def targetPath_def)
  then show ?thesis
    by simp
qed

text \<open>
  Claim C4. In every environment, whatever its calls throw, \<^verbatim>\<open>cloneBranchToFolder\<close> and
  \<^verbatim>\<open>cloneRepository\<close> return and throw nothing; when the body of either throws, the
  error ends at the log statement of its \<^verbatim>\<open>catch\<close> block, which is the last event.
\<close>

theorem errors_never_propagate:
  "fst (cloneBranchToFolder env repoUrl branchName folder s) = Inr () \<and>
   fst (cloneRepository env repoUrl parent repoName cloneAll s) = Inr () \<and>
   (\<forall>e. fst (cloneBranchToFolder_try env repoUrl branchName folder s) = Inl e \<longrightarrow>
      cloneBranchToFolder env repoUrl branchName folder s =
        (Inr (), emit (Log LError (ErrorCloningBranch branchName e))
           (snd (cloneBranchToFolder_try env repoUrl branchName folder s)))) \<and>
   (\<forall>e. fst (cloneRepository_try env repoUrl parent repoName cloneAll s) = Inl e \<longrightarrow>
      cloneRepository env repoUrl parent repoName cloneAll s =
        (Inr (), emit (Log LError (ErrorCloningRepository e))
           (snd (cloneRepository_try env repoUrl parent repoName cloneAll s))))"
proof (intro conjI allI impI)
  show "fst (cloneBranchToFolder env repoUrl branchName folder s) = Inr ()"
    by (simp add: cloneBranchToFolder_def tryCatch_def logger_error_def split: prod.splits sum.splits)
next
  show "fst (cloneRepository env repoUrl parent repoName cloneAll s) = Inr ()"
    by (simp add: cloneRepository_def tryCatch_def logger_error_def split: prod.splits sum.splits)
next
  fix e
  assume "fst (cloneBranchToFolder_try env repoUrl branchName folder s) = Inl e"
  then show "cloneBranchToFolder env repoUrl branchName folder s =
      (Inr (), emit (Log LError (ErrorCloningBranch branchName e))
         (snd (cloneBranchToFolder_try env repoUrl branchName folder s)))"
    by (cases "cloneBranchToFolder_try env repoUrl branchName folder s")
      (simp add: cloneBranchToFolder_def tryCatch_def logger_error_def)
next
  fix e
  assume "fst (cloneRepository_try env repoUrl parent repoName cloneAll s) = Inl e"
  then show "cloneRepository env repoUrl parent repoName cloneAll s =
      (Inr (), emit (Log LError (ErrorCloningRepository e))
         (snd (cloneRepository_try env repoUrl parent repoName cloneAll s)))"
    by (cases "cloneRepository_try env repoUrl parent repoName cloneAll s")
      (simp add: cloneRepository_def tryCatch_def logger_error_def)
qed

section \<open>After the listing\<close>

lemma cloneRepository_try_after_listing:
  assumes "fst (listRemoteBranches env url (path_join env parent repo) s) = Inr listing"
  shows "cloneRepository_try env url parent repo cloneAll s =
    (if listing = [] then logger_warn CouldNotFetchBranchInformation
     else if parseBranchNames listing = [] then logger_warn NoRemoteBranchesFound
     else andThen (logger_info (RemoteBranches (parseBranchNames listing))) (\<lambda>_.
       cloneSelectedBranches env url (parseBranchNames listing) (path_join env parent repo)
         cloneAll))
      (snd (listRemoteBranches env url (path_join env parent repo) s))"
proof (cases "listRemoteBranches env url (path_join env parent repo) s")
  case (Pair r s1)
  then have "r = Inr listing"
    using assms by simp
  then show ?thesis
    using Pair by (simp add: cloneRepository_try_def Let_def andThen_def)
qed

lemma cloneRepository_selected:
  assumes "fst (listRemoteBranches env url (path_join env parent repo) s) = Inr listing"
    and "parseBranchNames listing \<noteq> []"
  shows "cloneRepository_try env url parent repo cloneAll s =
    cloneSelectedBranches env url (parseBranchNames listing) (path_join env parent repo) cloneAll
      (emit (Log LInfo (RemoteBranches (parseBranchNames listing)))
        (snd (listRemoteBranches env url (path_join env parent repo) s)))"
proof -
  have "listing \<noteq> []"
    using assms(2) by (auto simp: parseBranchNames_def is_head_ref_def at_index_def)
  then show ?thesis
    using cloneRepository_try_after_listing [OF assms(1)] assms(2)
    by (simp add: andThen_def logger_info_def)
qed

lemma tryCatch_returns: "fst (m s) = Inr x \<Longrightarrow> tryCatch m h s = m s"
  by (cases "m s") (simp add: tryCatch_def)

lemma trace_emit: "trace (emit ev s) = trace s @ [ev]"
  by (simp add: emit_def)

text \<open>
  Claim C9. When the ref listing is empty, or no branch name is parsed from it,
  \<^verbatim>\<open>cloneRepository\<close> logs one warning and returns: the warning is the only event after
  the listing, so no existence check, no folder creation and no other call follows, and
  nothing is thrown.
\<close>

theorem empty_listing_soft_fail:
  assumes "fst (listRemoteBranches env repoUrl (path_join env parent repoName) s) = Inr listing"
    and "listing = [] \<or> parseBranchNames listing = []"
  shows "cloneRepository env repoUrl parent repoName cloneAll s =
      (Inr (),
       emit (Log LWarn (if listing = [] then CouldNotFetchBranchInformation
                        else NoRemoteBranchesFound))
         (snd (listRemoteBranches env repoUrl (path_join env parent repoName) s))) \<and>
    events_since (snd (listRemoteBranches env repoUrl (path_join env parent repoName) s))
      (snd (cloneRepository env repoUrl parent repoName cloneAll s)) =
      [Log LWarn (if listing = [] then CouldNotFetchBranchInformation
                  else NoRemoteBranchesFound)]"
proof -
  have body: "cloneRepository_try env repoUrl parent repoName cloneAll s =
      (Inr (),
       emit (Log LWarn (if listing = [] then CouldNotFetchBranchInformation
                        else NoRemoteBranchesFound))
         (snd (listRemoteBranches env repoUrl (path_join env parent repoName) s)))"
    using cloneRepository_try_after_listing [OF assms(1)] assms(2)
    by (auto simp: logger_warn_def)
  then have run: "cloneRepository env repoUrl parent repoName cloneAll s =
      (Inr (),
       emit (Log LWarn (if listing = [] then CouldNotFetchBranchInformation
                        else NoRemoteBranchesFound))
         (snd (listRemoteBranches env repoUrl (path_join env parent repoName) s)))"
    by (simp add: cloneRepository_def tryCatch_def)
  have "events_since (snd (listRemoteBranches env repoUrl (path_join env parent repoName) s))
      (snd (cloneRepository env repoUrl parent repoName cloneAll s)) =
      [Log LWarn (if listing = [] then CouldNotFetchBranchInformation
                  else NoRemoteBranchesFound)]"
    by (rule events_since_append) (simp only: run snd_conv trace_emit)
  with run show ?thesis ..
qed

lemma cloneRepository_none_listed:
  assumes "fst (listRemoteBranches env repoUrl (path_join env parent repoName) s) = Inr listing"
    and "parseBranchNames listing = []"
  shows "fst (cloneRepository env repoUrl parent repoName cloneAll s) = Inr () \<and>
    existence_checks
      (events_since (snd (listRemoteBranches env repoUrl (path_join env parent repoName) s))
        (snd (cloneRepository env repoUrl parent repoName cloneAll s))) = [] \<and>
    terminals
      (events_since (snd (listRemoteBranches env repoUrl (path_join env parent repoName) s))
        (snd (cloneRepository env repoUrl parent repoName cloneAll s))) = []"
proof -
  let ?s1 = "snd (listRemoteBranches env repoUrl (path_join env parent repoName) s)"
  let ?w = "if listing = [] then CouldNotFetchBranchInformation else NoRemoteBranchesFound"
  have "cloneRepository_try env repoUrl parent repoName cloneAll s = (Inr (), emit (Log LWarn ?w) ?s1)"
    using cloneRepository_try_after_listing [OF assms(1)] assms(2)
    by (auto simp: logger_warn_def)
  then have run: "cloneRepository env repoUrl parent repoName cloneAll s =
      (Inr (), emit (Log LWarn ?w) ?s1)"
    by (simp add: cloneRepository_def tryCatch_def)
  have "events_since ?s1 (snd (cloneRepository env repoUrl parent repoName cloneAll s)) =
      [Log LWarn ?w]"
    by (rule events_since_append) (simp only: run snd_conv trace_emit)
  then show ?thesis
    using run by simp
qed

lemma cloneRepository_one_branch:
  assumes "fst (listRemoteBranches env repoUrl (path_join env parent repoName) s) = Inr listing"
    and "parseBranchNames listing \<noteq> []"
  shows "cloneRepository env repoUrl parent repoName False s =
      cloneBranchToFolder env repoUrl
        (if ''main'' \<in> set (parseBranchNames listing) then ''main'' else ''master'')
        (path_join env parent repoName)
        (emit (Log LInfo (RemoteBranches (parseBranchNames listing)))
          (snd (listRemoteBranches env repoUrl (path_join env parent repoName) s))) \<and>
    existence_checks
      (events_since (snd (listRemoteBranches env repoUrl (path_join env parent repoName) s))
        (snd (cloneRepository env repoUrl parent repoName False s))) =
      [targetPath env (path_join env parent repoName)
        (if ''main'' \<in> set (parseBranchNames listing) then ''main'' else ''master'')]"
proof -
  let ?names = "parseBranchNames listing"
  let ?folder = "path_join env parent repoName"
  let ?s1 = "snd (listRemoteBranches env repoUrl ?folder s)"
  let ?s2 = "emit (Log LInfo (RemoteBranches ?names)) ?s1"
  let ?b = "if ''main'' \<in> set ?names then ''main'' else ''master''"
  have body: "cloneRepository_try env repoUrl parent repoName False s =
      cloneBranchToFolder env repoUrl ?b ?folder ?s2"
    using cloneRepository_selected [OF assms, of False]
    by (simp add: cloneSelectedBranches_def Let_def)
  obtain evs where evs: "fst (cloneBranchToFolder env repoUrl ?b ?folder ?s2) = Inr ()"
    "trace (snd (cloneBranchToFolder env repoUrl ?b ?folder ?s2)) = trace ?s2 @ evs"
    "existence_checks evs = [targetPath env ?folder ?b]"
    using cloneBranchToFolder_events [of env repoUrl ?b ?folder ?s2] by blast
  have run: "cloneRepository env repoUrl parent repoName False s =
      cloneBranchToFolder env repoUrl ?b ?folder ?s2"
    unfolding cloneRepository_def
    using tryCatch_returns [of "cloneRepository_try env repoUrl parent repoName False" s "()"]
      body evs(1) by simp
  have "trace (snd (cloneRepository env repoUrl parent repoName False s)) =
      trace ?s1 @ (Log LInfo (RemoteBranches ?names) # evs)"
    using run evs(2) by (simp add: trace_emit)
  then have "events_since ?s1 (snd (cloneRepository env repoUrl parent repoName False s)) =
      Log LInfo (RemoteBranches ?names) # evs"
    by (rule events_since_append)
  then have "existence_checks
      (events_since ?s1 (snd (cloneRepository env repoUrl parent repoName False s))) =
      [targetPath env ?folder ?b]"
    using evs(3) by simp
  with run show ?thesis ..
qed

text \<open>
  Claim C1, amended. When \<^verbatim>\<open>cloneAllBranches\<close> is false, \<^verbatim>\<open>cloneRepository\<close> attempts
  nothing when no branch name is parsed from the listing, and otherwise makes exactly one
  call of \<^verbatim>\<open>cloneBranchToFolder\<close>: for \<^verbatim>\<open>main\<close> when \<^verbatim>\<open>main\<close> is among the names, and
  for \<^verbatim>\<open>master\<close> otherwise, whether \<^verbatim>\<open>master\<close> is among them or not.
\<close>

theorem single_branch_attempts_main_or_master:
  assumes "fst (listRemoteBranches env repoUrl (path_join env parent repoName) s) = Inr listing"
  shows "existence_checks
      (events_since (snd (listRemoteBranches env repoUrl (path_join env parent repoName) s))
        (snd (cloneRepository env repoUrl parent repoName False s))) =
      (if parseBranchNames listing = [] then []
       else [targetPath env (path_join env parent repoName)
         (if ''main'' \<in> set (parseBranchNames listing) then ''main'' else ''master'')]) \<and>
    (parseBranchNames listing \<noteq> [] \<longrightarrow>
      cloneRepository env repoUrl parent repoName False s =
      cloneBranchToFolder env repoUrl
        (if ''main'' \<in> set (parseBranchNames listing) then ''main'' else ''master'')
        (path_join env parent repoName)
        (emit (Log LInfo (RemoteBranches (parseBranchNames listing)))
          (snd (listRemoteBranches env repoUrl (path_join env parent repoName) s))))"
proof (cases "parseBranchNames listing = []")
  case True
  then show ?thesis
    using cloneRepository_none_listed [OF assms True, of False] by simp
next
  case False
  note one = cloneRepository_one_branch [OF assms False]
  have checks: "existence_checks
      (events_since (snd (listRemoteBranches env repoUrl (path_join env parent repoName) s))
        (snd (cloneRepository env repoUrl parent repoName False s))) =
      (if parseBranchNames listing = [] then []
       else [targetPath env (path_join env parent repoName)
         (if ''main'' \<in> set (parseBranchNames listing) then ''main'' else ''master'')])"
    using one [THEN conjunct2] False by (simp only: if_False)
  have call: "parseBranchNames listing \<noteq> [] \<longrightarrow>
      cloneRepository env repoUrl parent repoName False s =
      cloneBranchToFolder env repoUrl
        (if ''main'' \<in> set (parseBranchNames listing) then ''main'' else ''master'')
        (path_join env parent repoName)
        (emit (Log LInfo (RemoteBranches (parseBranchNames listing)))
          (snd (listRemoteBranches env repoUrl (path_join env parent repoName) s)))"
    using one [THEN conjunct1] by (rule impI)
  from checks call show ?thesis ..
qed

lemma cloneRepository_each_branch:
  assumes "fst (listRemoteBranches env repoUrl (path_join env parent repoName) s) = Inr listing"
    and "parseBranchNames listing \<noteq> []"
  shows "cloneRepository env repoUrl parent repoName True s =
      cloneEachBranch env repoUrl (parseBranchNames listing) (path_join env parent repoName)
        (emit (Log LInfo (RemoteBranches (parseBranchNames listing)))
          (snd (listRemoteBranches env repoUrl (path_join env parent repoName) s)))"
proof -
  let ?names = "parseBranchNames listing"
  let ?folder = "path_join env parent repoName"
  let ?s2 = "emit (Log LInfo (RemoteBranches ?names)) (snd (listRemoteBranches env repoUrl ?folder s))"
  have body: "cloneRepository_try env repoUrl parent repoName True s =
      cloneEachBranch env repoUrl ?names ?folder ?s2"
    using cloneRepository_selected [OF assms, of True]
    by (simp add: cloneSelectedBranches_def)
  have "fst (cloneEachBranch env repoUrl ?names ?folder ?s2) = Inr ()"
    using cloneEachBranch_events [of env repoUrl ?names ?folder ?s2] by blast
  then show ?thesis
    unfolding cloneRepository_def
    using tryCatch_returns [of "cloneRepository_try env repoUrl parent repoName True" s "()"]
      body by simp
qed

lemma cloneRepository_all_events:
  assumes "fst (listRemoteBranches env repoUrl (path_join env parent repoName) s) = Inr listing"
  shows "fst (cloneRepository env repoUrl parent repoName True s) = Inr () \<and>
    existence_checks
      (events_since (snd (listRemoteBranches env repoUrl (path_join env parent repoName) s))
        (snd (cloneRepository env repoUrl parent repoName True s))) =
      map (targetPath env (path_join env parent repoName)) (parseBranchNames listing) \<and>
    list_all2 (own_terminal env (path_join env parent repoName)) (parseBranchNames listing)
      (terminals
        (events_since (snd (listRemoteBranches env repoUrl (path_join env parent repoName) s))
          (snd (cloneRepository env repoUrl parent repoName True s))))"
proof (cases "parseBranchNames listing = []")
  case True
  then show ?thesis
    using cloneRepository_none_listed [OF assms True, of True] by simp
next
  case False
  let ?names = "parseBranchNames listing"
  let ?folder = "path_join env parent repoName"
  let ?s1 = "snd (listRemoteBranches env repoUrl ?folder s)"
  let ?s2 = "emit (Log LInfo (RemoteBranches ?names)) ?s1"
  obtain evs where evs: "fst (cloneEachBranch env repoUrl ?names ?folder ?s2) = Inr ()"
    "trace (snd (cloneEachBranch env repoUrl ?names ?folder ?s2)) = trace ?s2 @ evs"
    "existence_checks evs = map (targetPath env ?folder) ?names"
    "list_all2 (own_terminal env ?folder) ?names (terminals evs)"
    using cloneEachBranch_events [of env repoUrl ?names ?folder ?s2] by blast
  note run = cloneRepository_each_branch [OF assms False]
  have "trace (snd (cloneRepository env repoUrl parent repoName True s)) =
      trace ?s1 @ (Log LInfo (RemoteBranches ?names) # evs)"
    using run evs(2) by (simp add: trace_emit)
  then have "events_since ?s1 (snd (cloneRepository env repoUrl parent repoName True s)) =
      Log LInfo (RemoteBranches ?names) # evs"
    by (rule events_since_append)
  moreover have "fst (cloneRepository env repoUrl parent repoName True s) = Inr ()"
    using run evs(1) by simp
  ultimately show ?thesis
    using evs(3,4) by simp
qed

text \<open>
  Claim C3, amended. When \<^verbatim>\<open>cloneAllBranches\<close> is true and the branch names parsed from
  the listing are \<open>N\<close>, the existence checks after the listing are \<open>N\<close>, one for each
  name in the order of the listing, each at the join of the repository folder and the
  sanitized name; with \<open>N \<ge> 1\<close> the run is the loop over the names, one call of
  \<^verbatim>\<open>cloneBranchToFolder\<close> each. Where \<^verbatim>\<open>path.join\<close> keeps the sanitized names apart,
  these target paths are pairwise distinct exactly when the sanitized names are.
\<close>

theorem all_branches_attempted_in_order:
  assumes "fst (listRemoteBranches env repoUrl (path_join env parent repoName) s) = Inr listing"
  shows "existence_checks
      (events_since (snd (listRemoteBranches env repoUrl (path_join env parent repoName) s))
        (snd (cloneRepository env repoUrl parent repoName True s))) =
      map (targetPath env (path_join env parent repoName)) (parseBranchNames listing) \<and>
    length (existence_checks
      (events_since (snd (listRemoteBranches env repoUrl (path_join env parent repoName) s))
        (snd (cloneRepository env repoUrl parent repoName True s)))) =
      length (parseBranchNames listing) \<and>
    (parseBranchNames listing \<noteq> [] \<longrightarrow>
      cloneRepository env repoUrl parent repoName True s =
      cloneEachBranch env repoUrl (parseBranchNames listing) (path_join env parent repoName)
        (emit (Log LInfo (RemoteBranches (parseBranchNames listing)))
          (snd (listRemoteBranches env repoUrl (path_join env parent repoName) s)))) \<and>
    (inj_on (path_join env (path_join env parent repoName))
        (sanitizeFolderName ` set (parseBranchNames listing)) \<longrightarrow>
      distinct (map (targetPath env (path_join env parent repoName)) (parseBranchNames listing)) =
      distinct (map sanitizeFolderName (parseBranchNames listing)))"
proof (intro conjI)
  let ?names = "parseBranchNames listing"
  let ?folder = "path_join env parent repoName"
  show checks: "existence_checks
      (events_since (snd (listRemoteBranches env repoUrl ?folder s))
        (snd (cloneRepository env repoUrl parent repoName True s))) =
      map (targetPath env ?folder) ?names"
    using cloneRepository_all_events [OF assms] by simp
  then show "length (existence_checks
      (events_since (snd (listRemoteBranches env repoUrl ?folder s))
        (snd (cloneRepository env repoUrl parent repoName True s)))) = length ?names"
    by simp
  show "?names \<noteq> [] \<longrightarrow>
      cloneRepository env repoUrl parent repoName True s =
      cloneEachBranch env repoUrl ?names ?folder
        (emit (Log LInfo (RemoteBranches ?names)) (snd (listRemoteBranches env repoUrl ?folder s)))"
    using cloneRepository_each_branch [OF assms] by blast
  have paths: "map (targetPath env ?folder) ?names =
      map (path_join env ?folder) (map sanitizeFolderName ?names)"
    by (simp add: targetPath_def)
  have "distinct (map (path_join env ?folder) (map sanitizeFolderName ?names)) =
      (distinct (map sanitizeFolderName ?names) \<and>
       inj_on (path_join env ?folder) (sanitizeFolderName ` set ?names))"
    using distinct_map [of "path_join env ?folder" "map sanitizeFolderName ?names"]
    by (simp only: set_map)
  then show "inj_on (path_join env ?folder) (sanitizeFolderName ` set ?names) \<longrightarrow>
      distinct (map (targetPath env ?folder) ?names) = distinct (map sanitizeFolderName ?names)"
    unfolding paths by blast
qed

text \<open>
  Claim C5. When \<^verbatim>\<open>cloneAllBranches\<close> is true, in every environment and whatever its
  calls throw, the loop runs to its end: \<^verbatim>\<open>cloneRepository\<close> returns, every branch of
  the listing is attempted in order, and the terminal log statements after the listing
  are one for each branch, in order, each the branch's own: skipped, done or failed.
\<close>

theorem failure_does_not_abort_loop:
  assumes "fst (listRemoteBranches env repoUrl (path_join env parent repoName) s) = Inr listing"
  shows "fst (cloneRepository env repoUrl parent repoName True s) = Inr () \<and>
    list_all2 (own_terminal env (path_join env parent repoName)) (parseBranchNames listing)
      (terminals
        (events_since (snd (listRemoteBranches env repoUrl (path_join env parent repoName) s))
          (snd (cloneRepository env repoUrl parent repoName True s)))) \<and>
    existence_checks
      (events_since (snd (listRemoteBranches env repoUrl (path_join env parent repoName) s))
        (snd (cloneRepository env repoUrl parent repoName True s))) =
      map (targetPath env (path_join env parent repoName)) (parseBranchNames listing)"
  using cloneRepository_all_events [OF assms] by simp

section \<open>Runs on the example disk\<close>

text \<open>Claim C2 where the folder \<^verbatim>\<open>clones/r/feature_x\<close> exists.\<close>

theorem existing_folder_is_skipped_witness:
  "exists_at sim (path_join sim ''clones/r'' (sanitizeFolderName ''feature/x''))
     (world feature_folder_present) \<and>
   (cloneBranchToFolder sim repo_url ''feature/x'' ''clones/r'' feature_folder_present =
      (Inr (), feature_folder_present\<lparr>trace := trace feature_folder_present @
         [ExistsSync (path_join sim ''clones/r'' (sanitizeFolderName ''feature/x'')),
          Log LInfo (SubfolderExists
            (path_join sim ''clones/r'' (sanitizeFolderName ''feature/x'')))]\<rparr>) \<and>
    world (snd (cloneBranchToFolder sim repo_url ''feature/x'' ''clones/r''
      feature_folder_present)) = world feature_folder_present) \<and>
   trace (snd (cloneBranchToFolder sim repo_url ''feature/x'' ''clones/r''
      feature_folder_present)) =
     [ExistsSync ''clones/r/feature_x'', Log LInfo (SubfolderExists ''clones/r/feature_x'')]"
proof -
  have present: "exists_at sim (path_join sim ''clones/r'' (sanitizeFolderName ''feature/x''))
     (world feature_folder_present)"
    by code_simp
  have events: "trace (snd (cloneBranchToFolder sim repo_url ''feature/x'' ''clones/r''
      feature_folder_present)) =
     [ExistsSync ''clones/r/feature_x'', Log LInfo (SubfolderExists ''clones/r/feature_x'')]"
    by code_simp
  show ?thesis
    by (rule conjI [OF present conjI [OF existing_folder_is_skipped [OF present] events]])
qed

text \<open>
  Claim C4 where the checkout of a branch that is not on the remote throws, and where
  \<^verbatim>\<open>remote set-url\<close> throws in the repository folder.
\<close>

theorem errors_never_propagate_witness:
  "fst (cloneBranchToFolder_try sim repo_url ''ghost'' ''clones/r''
          (before_clone [''main''] [''main''])) =
     Inl (Exn ''error: pathspec ghost did not match'') \<and>
   cloneBranchToFolder sim repo_url ''ghost'' ''clones/r'' (before_clone [''main''] [''main'']) =
     (Inr (), emit (Log LError
        (ErrorCloningBranch ''ghost'' (Exn ''error: pathspec ghost did not match'')))
        (snd (cloneBranchToFolder_try sim repo_url ''ghost'' ''clones/r''
               (before_clone [''main''] [''main''])))) \<and>
   fst (cloneRepository_try sim repo_url ''clones'' ''r'' True beside_my_origin) =
     Inl (Exn ''error: No such remote origin'') \<and>
   cloneRepository sim repo_url ''clones'' ''r'' True beside_my_origin =
     (Inr (), emit (Log LError (ErrorCloningRepository (Exn ''error: No such remote origin'')))
        (snd (cloneRepository_try sim repo_url ''clones'' ''r'' True beside_my_origin)))"
proof -
  have branch_throws: "fst (cloneBranchToFolder_try sim repo_url ''ghost'' ''clones/r''
          (before_clone [''main''] [''main''])) =
     Inl (Exn ''error: pathspec ghost did not match'')"
    by code_simp
  have repository_throws:
    "fst (cloneRepository_try sim repo_url ''clones'' ''r'' True beside_my_origin) =
     Inl (Exn ''error: No such remote origin'')"
    by code_simp
  note branch = errors_never_propagate [of sim repo_url "''ghost''" "''clones/r''"
      "before_clone [''main''] [''main'']" "''clones''" "''r''" True,
      THEN conjunct2, THEN conjunct2, THEN conjunct1, rule_format, OF branch_throws]
  note repository = errors_never_propagate [of sim repo_url "''ghost''" "''clones/r''"
      beside_my_origin "''clones''" "''r''" True,
      THEN conjunct2, THEN conjunct2, THEN conjunct2, rule_format, OF repository_throws]
  show ?thesis
    by (rule conjI [OF branch_throws conjI [OF branch conjI [OF repository_throws repository]]])
qed

text \<open>
  Claim C10 where the only remote is named \<^verbatim>\<open>my-origin\<close>: the listing includes the
  text \<^verbatim>\<open>origin\<close>, and the program calls \<^verbatim>\<open>remote set-url\<close> on \<^verbatim>\<open>origin\<close>.
\<close>

theorem origin_test_is_substring_test_witness:
  "fst (raw_at sim ''clones/r'' [''remote'', ''show''] (world beside_my_origin)) =
     Inr (''my-origin'' @ [newline]) \<and>
   events_since beside_my_origin (snd (configureOrigin sim ''clones/r'' repo_url beside_my_origin)) =
     [GitRaw ''clones/r'' [''remote'', ''show''],
      Log LInfo (if \<exists>pre post. ''my-origin'' @ [newline] = pre @ ''origin'' @ post
                 then RemoteOriginExists else AddingRemoteOrigin),
      GitRaw ''clones/r'' (if \<exists>pre post. ''my-origin'' @ [newline] = pre @ ''origin'' @ post
                           then [''remote'', ''set-url'', ''origin'', repo_url]
                           else [''remote'', ''add'', ''origin'', repo_url])] \<and>
   map fst (remotes_of (world beside_my_origin) ''clones/r'') = [''my-origin''] \<and>
   events_since beside_my_origin (snd (configureOrigin sim ''clones/r'' repo_url beside_my_origin)) =
     [GitRaw ''clones/r'' [''remote'', ''show''],
      Log LInfo RemoteOriginExists,
      GitRaw ''clones/r'' [''remote'', ''set-url'', ''origin'', repo_url]]"
proof -
  have listed: "fst (raw_at sim ''clones/r'' [''remote'', ''show''] (world beside_my_origin)) =
     Inr (''my-origin'' @ [newline])"
    by code_simp
  have names: "map fst (remotes_of (world beside_my_origin) ''clones/r'') = [''my-origin'']"
    by code_simp
  have chosen:
    "events_since beside_my_origin (snd (configureOrigin sim ''clones/r'' repo_url beside_my_origin)) =
     [GitRaw ''clones/r'' [''remote'', ''show''],
      Log LInfo RemoteOriginExists,
      GitRaw ''clones/r'' [''remote'', ''set-url'', ''origin'', repo_url]]"
    by code_simp
  show ?thesis
    by (rule conjI [OF listed conjI [OF origin_test_is_substring_test [OF listed]
          conjI [OF names chosen]]])
qed

text \<open>
  Claim C9 where the remote lists one tag: the repository folder is the only one on
  disk after the run. The last line is the run on an empty listing.
\<close>

theorem empty_listing_soft_fail_witness:
  "fst (listRemoteBranches sim repo_url (path_join sim ''clones'' ''r'') tags_only) =
     Inr (listing_line ''0a1b2c'' ''refs/tags/v1'') \<and>
   (listing_line ''0a1b2c'' ''refs/tags/v1'' = [] \<or>
    parseBranchNames (listing_line ''0a1b2c'' ''refs/tags/v1'') = []) \<and>
   (cloneRepository sim repo_url ''clones'' ''r'' True tags_only =
      (Inr (),
       emit (Log LWarn (if listing_line ''0a1b2c'' ''refs/tags/v1'' = []
                        then CouldNotFetchBranchInformation else NoRemoteBranchesFound))
         (snd (listRemoteBranches sim repo_url (path_join sim ''clones'' ''r'') tags_only))) \<and>
    events_since (snd (listRemoteBranches sim repo_url (path_join sim ''clones'' ''r'') tags_only))
      (snd (cloneRepository sim repo_url ''clones'' ''r'' True tags_only)) =
      [Log LWarn (if listing_line ''0a1b2c'' ''refs/tags/v1'' = []
                  then CouldNotFetchBranchInformation else NoRemoteBranchesFound)]) \<and>
   folders (world (snd (cloneRepository sim repo_url ''clones'' ''r'' True tags_only))) =
     [''clones/r''] \<and>
   last (trace (snd (cloneRepository sim repo_url ''clones'' ''r'' True tags_only))) =
     Log LWarn NoRemoteBranchesFound \<and>
   last (trace (snd (cloneRepository sim repo_url ''clones'' ''r'' True (before_clone [] [])))) =
     Log LWarn CouldNotFetchBranchInformation"
proof -
  have listed: "fst (listRemoteBranches sim repo_url (path_join sim ''clones'' ''r'') tags_only) =
     Inr (listing_line ''0a1b2c'' ''refs/tags/v1'')"
    by code_simp
  have none: "listing_line ''0a1b2c'' ''refs/tags/v1'' = [] \<or>
    parseBranchNames (listing_line ''0a1b2c'' ''refs/tags/v1'') = []"
    by code_simp
  have on_disk:
    "folders (world (snd (cloneRepository sim repo_url ''clones'' ''r'' True tags_only))) =
     [''clones/r'']"
    by code_simp
  have warned:
    "last (trace (snd (cloneRepository sim repo_url ''clones'' ''r'' True tags_only))) =
     Log LWarn NoRemoteBranchesFound"
    by code_simp
  have no_data:
    "last (trace (snd (cloneRepository sim repo_url ''clones'' ''r'' True (before_clone [] [])))) =
     Log LWarn CouldNotFetchBranchInformation"
    by code_simp
  show ?thesis
    by (rule conjI [OF listed conjI [OF none conjI [OF empty_listing_soft_fail [OF listed none]
          conjI [OF on_disk conjI [OF warned no_data]]]]])
qed

text \<open>
  Claim C1 as stated fails where the remote has the one branch \<^verbatim>\<open>develop\<close>: the
  program attempts \<^verbatim>\<open>master\<close>. It creates the folder, initialises it, adds the remote,
  fetches, and the checkout throws; the folder stays on disk.
\<close>

theorem neither_main_nor_master_counterexample:
  "parseBranchNames (heads_listing [''develop'']) = [''develop''] \<and>
   fst (listRemoteBranches sim repo_url (path_join sim ''clones'' ''r'')
          (before_clone [''develop''] [''develop''])) = Inr (heads_listing [''develop'']) \<and>
   events_since
     (snd (listRemoteBranches sim repo_url (path_join sim ''clones'' ''r'')
        (before_clone [''develop''] [''develop''])))
     (snd (cloneRepository sim repo_url ''clones'' ''r'' False
        (before_clone [''develop''] [''develop'']))) =
     [Log LInfo (RemoteBranches [''develop'']),
      ExistsSync ''clones/r/master'',
      MkdirSync ''clones/r/master'',
      Log LInfo (CreatedSubfolder ''clones/r/master''),
      Log LInfo (InitializingSubfolder ''clones/r/master''),
      GitInit ''clones/r/master'',
      GitRaw ''clones/r/master'' [''remote'', ''show''],
      Log LInfo AddingRemoteOrigin,
      GitRaw ''clones/r/master'' [''remote'', ''add'', ''origin'', repo_url],
      GitFetch ''clones/r/master'',
      Log LInfo (CheckingOut ''master'' ''clones/r/master''),
      GitCheckout ''clones/r/master'' [''master''],
      Log LError (ErrorCloningBranch ''master'' (Exn ''error: pathspec master did not match''))] \<and>
   folders (world (snd (cloneRepository sim repo_url ''clones'' ''r'' False
      (before_clone [''develop''] [''develop''])))) = [''clones/r/master'', ''clones/r'']"
  by code_simp

text \<open>
  Claim C1, amended, on the branches \<^verbatim>\<open>develop\<close>, \<^verbatim>\<open>main\<close>, \<^verbatim>\<open>feature/x\<close>, where
  \<^verbatim>\<open>main\<close> is checked out; the last line is the run on \<^verbatim>\<open>develop\<close>, \<^verbatim>\<open>master\<close>.
\<close>

theorem single_branch_attempts_main_or_master_witness:
  "fst (listRemoteBranches sim repo_url (path_join sim ''clones'' ''r'')
          (before_clone [''develop'', ''main'', ''feature/x''] [''develop'', ''main'', ''feature/x''])) =
     Inr (heads_listing [''develop'', ''main'', ''feature/x'']) \<and>
   parseBranchNames (heads_listing [''develop'', ''main'', ''feature/x'']) \<noteq> [] \<and>
   (cloneRepository sim repo_url ''clones'' ''r'' False
      (before_clone [''develop'', ''main'', ''feature/x''] [''develop'', ''main'', ''feature/x'']) =
    cloneBranchToFolder sim repo_url
      (if ''main'' \<in> set (parseBranchNames (heads_listing [''develop'', ''main'', ''feature/x'']))
       then ''main'' else ''master'')
      (path_join sim ''clones'' ''r'')
      (emit (Log LInfo (RemoteBranches
          (parseBranchNames (heads_listing [''develop'', ''main'', ''feature/x'']))))
        (snd (listRemoteBranches sim repo_url (path_join sim ''clones'' ''r'')
          (before_clone [''develop'', ''main'', ''feature/x'']
             [''develop'', ''main'', ''feature/x''])))) \<and>
    existence_checks
      (events_since
        (snd (listRemoteBranches sim repo_url (path_join sim ''clones'' ''r'')
          (before_clone [''develop'', ''main'', ''feature/x''] [''develop'', ''main'', ''feature/x''])))
        (snd (cloneRepository sim repo_url ''clones'' ''r'' False
          (before_clone [''develop'', ''main'', ''feature/x'']
             [''develop'', ''main'', ''feature/x''])))) =
      (if parseBranchNames (heads_listing [''develop'', ''main'', ''feature/x'']) = [] then []
       else [targetPath sim (path_join sim ''clones'' ''r'')
         (if ''main'' \<in> set (parseBranchNames (heads_listing [''develop'', ''main'', ''feature/x'']))
          then ''main'' else ''master'')])) \<and>
   worktrees (world (snd (cloneRepository sim repo_url ''clones'' ''r'' False
      (before_clone [''develop'', ''main'', ''feature/x''] [''develop'', ''main'', ''feature/x''])))) =
     [(''clones/r/main'', ''main'')] \<and>
   worktrees (world (snd (cloneRepository sim repo_url ''clones'' ''r'' False
      (before_clone [''develop'', ''master''] [''develop'', ''master''])))) =
     [(''clones/r/master'', ''master'')]"
proof -
  have listed: "fst (listRemoteBranches sim repo_url (path_join sim ''clones'' ''r'')
          (before_clone [''develop'', ''main'', ''feature/x''] [''develop'', ''main'', ''feature/x''])) =
     Inr (heads_listing [''develop'', ''main'', ''feature/x''])"
    by code_simp
  have some: "parseBranchNames (heads_listing [''develop'', ''main'', ''feature/x'']) \<noteq> []"
    by code_simp
  have main: "worktrees (world (snd (cloneRepository sim repo_url ''clones'' ''r'' False
      (before_clone [''develop'', ''main'', ''feature/x''] [''develop'', ''main'', ''feature/x''])))) =
     [(''clones/r/main'', ''main'')]"
    by code_simp
  have master: "worktrees (world (snd (cloneRepository sim repo_url ''clones'' ''r'' False
      (before_clone [''develop'', ''master''] [''develop'', ''master''])))) =
     [(''clones/r/master'', ''master'')]"
    by code_simp
  show ?thesis
    by (rule conjI [OF listed conjI [OF some
          conjI [OF conjI [OF
              single_branch_attempts_main_or_master [OF listed, THEN conjunct2, THEN mp, OF some]
              single_branch_attempts_main_or_master [OF listed, THEN conjunct1]]
            conjI [OF main master]]]])
qed

text \<open>
  Claim C3 as stated fails where the remote has the branches \<^verbatim>\<open>feat/a\<close> and
  \<^verbatim>\<open>feat_a\<close>: the two target paths are the same, and the second branch is skipped
  because the folder of the first is there.
\<close>

theorem colliding_target_paths_counterexample:
  "parseBranchNames (heads_listing [''feat/a'', ''feat_a'']) = [''feat/a'', ''feat_a''] \<and>
   fst (listRemoteBranches sim repo_url (path_join sim ''clones'' ''r'')
          (before_clone [''feat/a'', ''feat_a''] [''feat/a'', ''feat_a''])) =
     Inr (heads_listing [''feat/a'', ''feat_a'']) \<and>
   existence_checks
     (events_since
       (snd (listRemoteBranches sim repo_url (path_join sim ''clones'' ''r'')
          (before_clone [''feat/a'', ''feat_a''] [''feat/a'', ''feat_a''])))
       (snd (cloneRepository sim repo_url ''clones'' ''r'' True
          (before_clone [''feat/a'', ''feat_a''] [''feat/a'', ''feat_a''])))) =
     [''clones/r/feat_a'', ''clones/r/feat_a''] \<and>
   terminals
     (events_since
       (snd (listRemoteBranches sim repo_url (path_join sim ''clones'' ''r'')
          (before_clone [''feat/a'', ''feat_a''] [''feat/a'', ''feat_a''])))
       (snd (cloneRepository sim repo_url ''clones'' ''r'' True
          (before_clone [''feat/a'', ''feat_a''] [''feat/a'', ''feat_a''])))) =
     [Done ''feat/a'' ''clones/r/feat_a'', Skipped ''clones/r/feat_a'']"
  by code_simp

text \<open>Claim C3, amended, on the branches \<^verbatim>\<open>develop\<close>, \<^verbatim>\<open>main\<close>, \<^verbatim>\<open>feature/x\<close>.\<close>

theorem all_branches_attempted_in_order_witness:
  "fst (listRemoteBranches sim repo_url (path_join sim ''clones'' ''r'')
          (before_clone [''develop'', ''main'', ''feature/x''] [''develop'', ''main'', ''feature/x''])) =
     Inr (heads_listing [''develop'', ''main'', ''feature/x'']) \<and>
   parseBranchNames (heads_listing [''develop'', ''main'', ''feature/x'']) \<noteq> [] \<and>
   inj_on (path_join sim (path_join sim ''clones'' ''r''))
     (sanitizeFolderName ` set (parseBranchNames (heads_listing [''develop'', ''main'', ''feature/x'']))) \<and>
   existence_checks
     (events_since
       (snd (listRemoteBranches sim repo_url (path_join sim ''clones'' ''r'')
          (before_clone [''develop'', ''main'', ''feature/x''] [''develop'', ''main'', ''feature/x''])))
       (snd (cloneRepository sim repo_url ''clones'' ''r'' True
          (before_clone [''develop'', ''main'', ''feature/x'']
             [''develop'', ''main'', ''feature/x''])))) =
     map (targetPath sim (path_join sim ''clones'' ''r''))
       (parseBranchNames (heads_listing [''develop'', ''main'', ''feature/x''])) \<and>
   cloneRepository sim repo_url ''clones'' ''r'' True
     (before_clone [''develop'', ''main'', ''feature/x''] [''develop'', ''main'', ''feature/x'']) =
   cloneEachBranch sim repo_url (parseBranchNames (heads_listing [''develop'', ''main'', ''feature/x'']))
     (path_join sim ''clones'' ''r'')
     (emit (Log LInfo (RemoteBranches
         (parseBranchNames (heads_listing [''develop'', ''main'', ''feature/x'']))))
       (snd (listRemoteBranches sim repo_url (path_join sim ''clones'' ''r'')
         (before_clone [''develop'', ''main'', ''feature/x'']
            [''develop'', ''main'', ''feature/x''])))) \<and>
   map (targetPath sim (path_join sim ''clones'' ''r''))
       (parseBranchNames (heads_listing [''develop'', ''main'', ''feature/x''])) =
     [''clones/r/develop'', ''clones/r/main'', ''clones/r/feature_x''] \<and>
   distinct (map (targetPath sim (path_join sim ''clones'' ''r''))
       (parseBranchNames (heads_listing [''develop'', ''main'', ''feature/x''])))"
proof -
  have listed: "fst (listRemoteBranches sim repo_url (path_join sim ''clones'' ''r'')
          (before_clone [''develop'', ''main'', ''feature/x''] [''develop'', ''main'', ''feature/x''])) =
     Inr (heads_listing [''develop'', ''main'', ''feature/x''])"
    by code_simp
  have some: "parseBranchNames (heads_listing [''develop'', ''main'', ''feature/x'']) \<noteq> []"
    by code_simp
  have apart: "inj_on (path_join sim (path_join sim ''clones'' ''r''))
     (sanitizeFolderName ` set (parseBranchNames (heads_listing [''develop'', ''main'', ''feature/x''])))"
    by (simp add: sim_def sim_join_def inj_on_def)
  have paths: "map (targetPath sim (path_join sim ''clones'' ''r''))
       (parseBranchNames (heads_listing [''develop'', ''main'', ''feature/x''])) =
     [''clones/r/develop'', ''clones/r/main'', ''clones/r/feature_x'']"
    by code_simp
  have names: "distinct (map sanitizeFolderName
       (parseBranchNames (heads_listing [''develop'', ''main'', ''feature/x''])))"
    by code_simp
  note run = all_branches_attempted_in_order [OF listed]
  have "distinct (map (targetPath sim (path_join sim ''clones'' ''r''))
       (parseBranchNames (heads_listing [''develop'', ''main'', ''feature/x'']))) =
     distinct (map sanitizeFolderName
       (parseBranchNames (heads_listing [''develop'', ''main'', ''feature/x''])))"
    using run [THEN conjunct2, THEN conjunct2, THEN conjunct2] apart by (rule mp)
  then have different: "distinct (map (targetPath sim (path_join sim ''clones'' ''r''))
       (parseBranchNames (heads_listing [''develop'', ''main'', ''feature/x''])))"
    using names by (rule iffD2)
  note loop = run [THEN conjunct2, THEN conjunct2, THEN conjunct1, THEN mp, OF some]
  show ?thesis
    by (rule conjI [OF listed conjI [OF some conjI [OF apart
          conjI [OF run [THEN conjunct1] conjI [OF loop conjI [OF paths different]]]]]])
qed

text \<open>
  Claim C5 where the second of three listed branches is gone from the remote when it is
  checked out: the first and the third are checked out all the same.
\<close>

theorem failure_does_not_abort_loop_witness:
  "fst (listRemoteBranches sim repo_url (path_join sim ''clones'' ''r'')
          (before_clone [''main'', ''ghost'', ''dev''] [''main'', ''dev''])) =
     Inr (heads_listing [''main'', ''ghost'', ''dev'']) \<and>
   parseBranchNames (heads_listing [''main'', ''ghost'', ''dev'']) \<noteq> [] \<and>
   (fst (cloneRepository sim repo_url ''clones'' ''r'' True
          (before_clone [''main'', ''ghost'', ''dev''] [''main'', ''dev''])) = Inr () \<and>
    list_all2 (own_terminal sim (path_join sim ''clones'' ''r''))
      (parseBranchNames (heads_listing [''main'', ''ghost'', ''dev'']))
      (terminals
        (events_since
          (snd (listRemoteBranches sim repo_url (path_join sim ''clones'' ''r'')
             (before_clone [''main'', ''ghost'', ''dev''] [''main'', ''dev''])))
          (snd (cloneRepository sim repo_url ''clones'' ''r'' True
             (before_clone [''main'', ''ghost'', ''dev''] [''main'', ''dev'']))))) \<and>
    existence_checks
      (events_since
        (snd (listRemoteBranches sim repo_url (path_join sim ''clones'' ''r'')
           (before_clone [''main'', ''ghost'', ''dev''] [''main'', ''dev''])))
        (snd (cloneRepository sim repo_url ''clones'' ''r'' True
           (before_clone [''main'', ''ghost'', ''dev''] [''main'', ''dev''])))) =
      map (targetPath sim (path_join sim ''clones'' ''r''))
        (parseBranchNames (heads_listing [''main'', ''ghost'', ''dev'']))) \<and>
   terminals
     (events_since
       (snd (listRemoteBranches sim repo_url (path_join sim ''clones'' ''r'')
          (before_clone [''main'', ''ghost'', ''dev''] [''main'', ''dev''])))
       (snd (cloneRepository sim repo_url ''clones'' ''r'' True
          (before_clone [''main'', ''ghost'', ''dev''] [''main'', ''dev''])))) =
     [Done ''main'' ''clones/r/main'',
      Failed ''ghost'' (Exn ''error: pathspec ghost did not match''),
      Done ''dev'' ''clones/r/dev'']"
proof -
  have listed: "fst (listRemoteBranches sim repo_url (path_join sim ''clones'' ''r'')
          (before_clone [''main'', ''ghost'', ''dev''] [''main'', ''dev''])) =
     Inr (heads_listing [''main'', ''ghost'', ''dev''])"
    by code_simp
  have some: "parseBranchNames (heads_listing [''main'', ''ghost'', ''dev'']) \<noteq> []"
    by code_simp
  have reached: "terminals
     (events_since
       (snd (listRemoteBranches sim repo_url (path_join sim ''clones'' ''r'')
          (before_clone [''main'', ''ghost'', ''dev''] [''main'', ''dev''])))
       (snd (cloneRepository sim repo_url ''clones'' ''r'' True
          (before_clone [''main'', ''ghost'', ''dev''] [''main'', ''dev''])))) =
     [Done ''main'' ''clones/r/main'',
      Failed ''ghost'' (Exn ''error: pathspec ghost did not match''),
      Done ''dev'' ''clones/r/dev'']"
    by code_simp
  show ?thesis
    by (rule conjI [OF listed conjI [OF some
          conjI [OF failure_does_not_abort_loop [OF listed] reached]]])
qed

section \<open>Remote configuration on the example disk\<close>

lemma sim_remote_show_includes:
  assumes "n \<in> set (map fst (remotes_of w p))"
  shows "str_includes (sim_remote_show w p) n"
proof -
  obtain r where r: "r \<in> set (remotes_of w p)" "fst r = n"
    using assms by auto
  then obtain xs ys where "remotes_of w p = xs @ r # ys"
    by (auto simp: in_set_conv_decomp)
  then have "sim_remote_show w p =
      concat (map (\<lambda>r. fst r @ [newline]) xs) @ n @
        ([newline] @ concat (map (\<lambda>r. fst r @ [newline]) ys))"
    using r(2) by (simp add: sim_remote_show_def)
  then show ?thesis
    unfolding str_includes_iff by blast
qed

lemma remotes_of_set_url:
  "remotes_of (w\<lparr>remote_table :=
       map (\<lambda>r. if fst r = p \<and> fst (snd r) = n then (p, n, u) else r) (remote_table w)\<rparr>) p =
     map (\<lambda>r. if fst r = n then (n, u) else r) (remotes_of w p)"
  by (induction "remote_table w" arbitrary: w) (auto simp: remotes_of_def filter_map comp_def
      intro!: map_cong filter_cong)

lemma sim_remote_show_run:
  "raw_at sim p [''remote'', ''show''] w = (Inr (sim_remote_show w p), w)"
  by (simp add: sim_def)

lemma configureOrigin_sim_present:
  assumes "''origin'' \<in> set (map fst (remotes_of (world s) p))"
  shows "fst (configureOrigin sim p u s) = Inr () \<and>
    remotes_of (world (snd (configureOrigin sim p u s))) p =
      map (\<lambda>r. if fst r = ''origin'' then (''origin'', u) else r) (remotes_of (world s) p)"
proof -
  have "str_includes (sim_remote_show (world s) p) ''origin''"
    using assms by (rule sim_remote_show_includes)
  moreover have "raw_at sim p [''remote'', ''set-url'', ''origin'', u] (world s) =
      (Inr [], (world s)\<lparr>remote_table :=
         map (\<lambda>r. if fst r = p \<and> fst (snd r) = ''origin'' then (p, ''origin'', u) else r)
           (remote_table (world s))\<rparr>)"
    using assms by (simp add: sim_def sim_remote_set_url_def)
  ultimately have "configureOrigin sim p u s =
      (Inr (), emit (GitRaw p [''remote'', ''set-url'', ''origin'', u])
        ((emit (Log LInfo RemoteOriginExists) (emit (GitRaw p [''remote'', ''show'']) s))
          \<lparr>world := (world s)\<lparr>remote_table :=
             map (\<lambda>r. if fst r = p \<and> fst (snd r) = ''origin'' then (p, ''origin'', u) else r)
               (remote_table (world s))\<rparr>\<rparr>))"
    by (simp add: configureOrigin_def andThen_def sim_remote_show_run logger_info_def ret_def
        git_raw_run emit_def del: sim_raw.simps)
  then show ?thesis
    by (simp add: emit_def remotes_of_set_url)
qed

lemma configureOrigin_sim_absent:
  assumes "\<not> str_includes (sim_remote_show (world s) p) ''origin''"
  shows "fst (configureOrigin sim p u s) = Inr () \<and>
    remotes_of (world (snd (configureOrigin sim p u s))) p =
      remotes_of (world s) p @ [(''origin'', u)]"
proof -
  have absent: "''origin'' \<notin> set (map fst (remotes_of (world s) p))"
    using assms sim_remote_show_includes by blast
  then have "raw_at sim p [''remote'', ''add'', ''origin'', u] (world s) =
      (Inr [], (world s)\<lparr>remote_table := remote_table (world s) @ [(p, ''origin'', u)]\<rparr>)"
    by (simp add: sim_def sim_remote_add_def)
  then have "configureOrigin sim p u s =
      (Inr (), emit (GitRaw p [''remote'', ''add'', ''origin'', u])
        ((emit (Log LInfo AddingRemoteOrigin) (emit (GitRaw p [''remote'', ''show'']) s))
          \<lparr>world := (world s)\<lparr>remote_table := remote_table (world s) @ [(p, ''origin'', u)]\<rparr>\<rparr>))"
    using assms
    by (simp add: configureOrigin_def andThen_def sim_remote_show_run logger_info_def ret_def
        git_raw_run emit_def del: sim_raw.simps)
  then show ?thesis
    by (simp add: emit_def remotes_of_def)
qed

lemma names_after_set_url:
  "map fst (map (\<lambda>r. if fst r = n then (n, u) else r) rs) = map fst rs"
  by (induction rs) auto

lemma none_named_after_set_url:
  "n \<notin> set (map fst rs) \<Longrightarrow>
   filter (\<lambda>r. fst r = n) (map (\<lambda>r. if fst r = n then (n, u) else r) rs) = []"
  by (induction rs) auto

lemma one_origin_after_set_url:
  assumes "distinct (map fst rs)" and "n \<in> set (map fst rs)"
  shows "filter (\<lambda>r. fst r = n) (map (\<lambda>r. if fst r = n then (n, u) else r) rs) = [(n, u)]"
  using assms
proof (induction rs)
  case Nil
  then show ?case by simp
next
  case (Cons r rs)
  show ?case
  proof (cases "fst r = n")
    case True
    then have "n \<notin> set (map fst rs)"
      using Cons.prems(1) by auto
    then have "filter (\<lambda>r. fst r = n) (map (\<lambda>r. if fst r = n then (n, u) else r) rs) = []"
      by (rule none_named_after_set_url)
    then show ?thesis
      using True by simp
  next
    case False
    then show ?thesis
      using Cons by auto
  qed
qed

text \<open>
  On the example disk, remote configuration run twice with the same URL leaves exactly
  one remote named \<^verbatim>\<open>origin\<close>, at that URL, and neither run throws: in every folder
  whose remotes have distinct names and whose listing mentions \<^verbatim>\<open>origin\<close> only if a
  remote is named so. The first run adds the remote or repoints it, the second repoints
  it.
\<close>

theorem configureOrigin_twice_leaves_one_origin:
  assumes "distinct (map fst (remotes_of (world s) folder))"
    and "''origin'' \<in> set (map fst (remotes_of (world s) folder)) \<or>
         \<not> str_includes (sim_remote_show (world s) folder) ''origin''"
  shows "fst (configureOrigin sim folder url s) = Inr () \<and>
    fst (configureOrigin sim folder url (snd (configureOrigin sim folder url s))) = Inr () \<and>
    filter (\<lambda>r. fst r = ''origin'')
      (remotes_of
        (world (snd (configureOrigin sim folder url (snd (configureOrigin sim folder url s)))))
        folder) = [(''origin'', url)]"
proof -
  let ?s1 = "snd (configureOrigin sim folder url s)"
  have first: "fst (configureOrigin sim folder url s) = Inr () \<and>
      distinct (map fst (remotes_of (world ?s1) folder)) \<and>
      ''origin'' \<in> set (map fst (remotes_of (world ?s1) folder))"
  proof (cases "''origin'' \<in> set (map fst (remotes_of (world s) folder))")
    case True
    note run = configureOrigin_sim_present [OF True, of url]
    have same: "map fst (remotes_of (world ?s1) folder) = map fst (remotes_of (world s) folder)"
      by (simp only: run [THEN conjunct2] names_after_set_url)
    have "distinct (map fst (remotes_of (world ?s1) folder))"
      using assms(1) by (simp only: same)
    moreover have "''origin'' \<in> set (map fst (remotes_of (world ?s1) folder))"
      using True by (simp only: same)
    ultimately show ?thesis
      using run [THEN conjunct1] by blast
  next
    case False
    then have unmentioned: "\<not> str_includes (sim_remote_show (world s) folder) ''origin''"
      using assms(2) by blast
    note run = configureOrigin_sim_absent [OF unmentioned, of url]
    have "distinct (map fst (remotes_of (world ?s1) folder))"
      using assms(1) False by (simp add: run [THEN conjunct2])
    moreover have "''origin'' \<in> set (map fst (remotes_of (world ?s1) folder))"
      by (simp add: run [THEN conjunct2])
    ultimately show ?thesis
      using run [THEN conjunct1] by blast
  qed
  then have present: "''origin'' \<in> set (map fst (remotes_of (world ?s1) folder))"
    and different: "distinct (map fst (remotes_of (world ?s1) folder))"
    by simp_all
  note second = configureOrigin_sim_present [OF present, of url]
  have "filter (\<lambda>r. fst r = ''origin'')
      (remotes_of (world (snd (configureOrigin sim folder url ?s1))) folder) = [(''origin'', url)]"
    by (simp only: second [THEN conjunct2] one_origin_after_set_url [OF different present])
  then show ?thesis
    using first second [THEN conjunct1] by blast
qed

text \<open>The theorem in a folder without remotes.\<close>

theorem configureOrigin_twice_leaves_one_origin_witness:
  "distinct (map fst (remotes_of (world (start ((fresh_disk [] [])\<lparr>folders := [''clones/r'']\<rparr>)))
      ''clones/r'')) \<and>
   (''origin'' \<in> set (map fst
       (remotes_of (world (start ((fresh_disk [] [])\<lparr>folders := [''clones/r'']\<rparr>))) ''clones/r'')) \<or>
    \<not> str_includes
       (sim_remote_show (world (start ((fresh_disk [] [])\<lparr>folders := [''clones/r'']\<rparr>))) ''clones/r'')
       ''origin'') \<and>
   fst (configureOrigin sim ''clones/r'' repo_url
     (start ((fresh_disk [] [])\<lparr>folders := [''clones/r'']\<rparr>))) = Inr () \<and>
   fst (configureOrigin sim ''clones/r'' repo_url
     (snd (configureOrigin sim ''clones/r'' repo_url
        (start ((fresh_disk [] [])\<lparr>folders := [''clones/r'']\<rparr>))))) = Inr () \<and>
   filter (\<lambda>r. fst r = ''origin'')
     (remotes_of
       (world (snd (configureOrigin sim ''clones/r'' repo_url
          (snd (configureOrigin sim ''clones/r'' repo_url
             (start ((fresh_disk [] [])\<lparr>folders := [''clones/r'']\<rparr>)))))))
       ''clones/r'') = [(''origin'', repo_url)]"
proof -
  have different:
    "distinct (map fst (remotes_of (world (start ((fresh_disk [] [])\<lparr>folders := [''clones/r'']\<rparr>)))
      ''clones/r''))"
    by code_simp
  have unmentioned: "''origin'' \<in> set (map fst
       (remotes_of (world (start ((fresh_disk [] [])\<lparr>folders := [''clones/r'']\<rparr>))) ''clones/r'')) \<or>
    \<not> str_includes
       (sim_remote_show (world (start ((fresh_disk [] [])\<lparr>folders := [''clones/r'']\<rparr>))) ''clones/r'')
       ''origin''"
    by code_simp
  show ?thesis
    by (rule conjI [OF different conjI [OF unmentioned
          configureOrigin_twice_leaves_one_origin [OF different unmentioned]]])
qed

text \<open>
  Claim C6 at a repository folder whose only remote is named \<^verbatim>\<open>my-origin\<close>. The
  configuration, run twice with the same URL, calls \<^verbatim>\<open>remote set-url\<close> on \<^verbatim>\<open>origin\<close>
  both times; both calls throw, and no remote named \<^verbatim>\<open>origin\<close> is configured. The last
  line is the same two runs in a folder without remotes, which leave the one remote
  \<^verbatim>\<open>origin\<close> at the URL.
\<close>

theorem origin_beside_my_origin_is_never_configured:
  "map fst (remotes_of (world beside_my_origin) ''clones/r'') = [''my-origin''] \<and>
   fst (configureOrigin sim ''clones/r'' repo_url beside_my_origin) =
     Inl (Exn ''error: No such remote origin'') \<and>
   fst (configureOrigin sim ''clones/r'' repo_url
          (snd (configureOrigin sim ''clones/r'' repo_url beside_my_origin))) =
     Inl (Exn ''error: No such remote origin'') \<and>
   remotes_of
     (world (snd (configureOrigin sim ''clones/r'' repo_url
        (snd (configureOrigin sim ''clones/r'' repo_url beside_my_origin)))))
     ''clones/r'' = [(''my-origin'', ''https://github.com/fork/repo.git'')] \<and>
   remotes_of
     (world (snd (configureOrigin sim ''clones/r'' repo_url
        (snd (configureOrigin sim ''clones/r'' repo_url
           (start ((fresh_disk [] [])\<lparr>folders := [''clones/r'']\<rparr>)))))))
     ''clones/r'' = [(''origin'', repo_url)]"
  by code_simp

end
